theory Spec2Isabelle
  imports Main "HOL-Library.DAList" "HOL-Library.Multiset"
begin

section \<open>The quiz session engine of \<^verbatim>\<open>src/components/LessonView.tsx\<close>\<close>

text \<open>
  The MCQ branch of the \<^verbatim>\<open>LessonView\<close> component (lines 211 to 508) keeps its
  session in React state hooks, persists it in \<^verbatim>\<open>localStorage\<close> and reports a finished
  attempt through the \<^verbatim>\<open>onMCQComplete\<close> callback. The embedding below passes that state
  explicitly: one record for the hooks, the storage and the calls made to the host, one
  function per handler or effect, and a value of \<open>js_error + _\<close> wherever the JavaScript
  can throw.
\<close>

subsection \<open>Data\<close>

datatype js_error = SyntaxError | TypeError

text \<open>
  Modelled from the spec: \<^verbatim>\<open>MCQItem\<close> is declared in \<^verbatim>\<open>../types\<close>, which is not among the
  sources. The fields are the ones the component reads (\<^verbatim>\<open>q.question\<close>, \<^verbatim>\<open>q.options\<close>,
  \<^verbatim>\<open>q.correctAnswer\<close>, \<^verbatim>\<open>q.explanation\<close>) and the spec lists for a QuestionItem.
\<close>

record MCQItem =
  question :: string
  options :: "string list"
  correctAnswer :: int
  explanation :: "string option"

text \<open>
  \<^verbatim>\<open>mcqState\<close> has type \<^verbatim>\<open>Record<number, number | null>\<close>: a JavaScript object, that is a
  finite table with pairwise different keys. The value \<open>None\<close> stands for \<^verbatim>\<open>null\<close>; a key
  that is not in the table reads as \<^verbatim>\<open>undefined\<close>. \<^verbatim>\<open>Object.keys\<close> lists integer keys in
  ascending order and the table lists them as they were inserted: the component only
  takes the length of that list and adds over it, so the order plays no part.
\<close>

type_synonym answers = "(nat, int option) alist"

definition Object_keys :: "answers \<Rightarrow> nat list" where
  "Object_keys st = map fst (DAList.impl_of st)"

text \<open>
  What \<^verbatim>\<open>JSON.parse\<close> makes of a stored progress record. Every field may be missing
  (\<^verbatim>\<open>undefined\<close> when read); a field that is there has the type with which the
  auto-save effect wrote it.
\<close>

record progress =
  saved_mcqState :: "answers option"
  saved_batchIndex :: "nat option"
  saved_localMcqData :: "MCQItem list option"

text \<open>
  A string held by \<^verbatim>\<open>localStorage\<close>, up to what the component can observe of it: whether
  it is empty (falsy), and what \<^verbatim>\<open>JSON.parse\<close> does with it, which throws a SyntaxError,
  returns \<^verbatim>\<open>null\<close>, or returns a value whose properties are read.
\<close>

datatype stored_text = EmptyText | Unparseable | ParsesNull | Parses progress

fun truthy :: "stored_text option \<Rightarrow> bool" where
  "truthy None = False"
| "truthy (Some EmptyText) = False"
| "truthy (Some _) = True"

text \<open>The arguments of one call of \<^verbatim>\<open>onMCQComplete(count, answers, usedData, timeTaken)\<close>.\<close>

record completion =
  count :: nat
  given_answers :: answers
  usedData :: "MCQItem list"
  timeTaken :: nat

datatype content_type = MCQ_ANALYSIS | MCQ_SIMPLE | OTHER_CONTENT

text \<open>
  The props the engine reads (with \<^verbatim>\<open>loading\<close> false: the quiz is not reached while the
  content loads), and the random source: \<open>random env n\<close> is its \<open>n\<close>-th draw, whether
  \<^verbatim>\<open>Math.random() - 0.5\<close> comes out positive.
\<close>

record env =
  ctype :: content_type
  mcqData :: "MCQItem list option"
  userAnswers :: "answers option"
  chapter_id :: string
  onMCQComplete :: bool
  random :: "nat \<Rightarrow> bool"

text \<open>
  The state hooks of lines 46 to 67, the contents of \<^verbatim>\<open>localStorage\<close>, the calls made to \<^verbatim>\<open>onMCQComplete\<close> so far (latest first), the
  exceptions that left an event handler uncaught (latest first), and the number of
  random draws used so far. \<open>confirmOpen\<close> is \<^verbatim>\<open>confirmConfig.isOpen\<close>. The dialog is only
  ever opened by \<^verbatim>\<open>handleRecreate\<close>, whose \<^verbatim>\<open>onConfirm\<close> closure keeps the
  \<^verbatim>\<open>content.mcqData\<close> and the \<^verbatim>\<open>chapter.id\<close> of the render in which Re-create was pressed:
  \<open>confirm_mcqData\<close> and \<open>confirm_key\<close> are what the closure holds.
\<close>

record world =
  mcqState :: answers
  showResults :: bool
  localMcqData :: "MCQItem list"
  showResumePrompt :: bool
  analysisUnlocked :: bool
  showSubmitModal :: bool
  sessionTime :: nat
  batchIndex :: nat
  confirmOpen :: bool
  confirm_mcqData :: "MCQItem list"
  confirm_key :: string
  storage :: "string \<rightharpoonup> stored_text"
  completions :: "completion list"
  uncaught :: "js_error list"
  draws :: nat

definition initial :: "(string \<rightharpoonup> stored_text) \<Rightarrow> world" where
  "initial store =
     \<lparr>mcqState = DAList.empty, showResults = False, localMcqData = [],
      showResumePrompt = False, analysisUnlocked = False, showSubmitModal = False,
      sessionTime = 0, batchIndex = 0, confirmOpen = False,
      confirm_mcqData = [], confirm_key = [],
      storage = store, completions = [], uncaught = [], draws = 0\<rparr>"

definition BATCH_SIZE :: nat where
  "BATCH_SIZE = 50"

definition progressKey :: "env \<Rightarrow> string" where
  "progressKey e = ''nst_mcq_progress_'' @ chapter_id e"

subsection \<open>The shuffle\<close>

text \<open>
  \<^verbatim>\<open>[...data].sort(() => Math.random() - 0.5)\<close> sorts a copy with a comparator that
  ignores its arguments. With such a comparator the language fixes only that the result
  holds the same elements; the order is left to the engine's algorithm and to the
  random numbers drawn. The model does not follow any engine: it lets the random source
  choose the arrangement, inserting each element at the place the next draws name, so
  that every arrangement arises from some source. Only the multiset and the length of
  the result are facts about the program; the particular order in a concrete session
  below is the model's.
\<close>

fun place :: "(nat \<Rightarrow> bool) \<Rightarrow> nat \<Rightarrow> 'a \<Rightarrow> 'a list \<Rightarrow> 'a list \<times> nat" where
  "place r n x [] = ([x], n)"
| "place r n x (y # ys) =
     (if r n then (case place r (Suc n) x ys of (zs, m) \<Rightarrow> (y # zs, m))
      else (x # y # ys, Suc n))"

fun sort_random :: "(nat \<Rightarrow> bool) \<Rightarrow> nat \<Rightarrow> 'a list \<Rightarrow> 'a list \<times> nat" where
  "sort_random r n [] = ([], n)"
| "sort_random r n (x # xs) =
     (case sort_random r n xs of (ys, m) \<Rightarrow> place r m x ys)"

subsection \<open>Values derived at every render (lines 296 to 307)\<close>

text \<open>
  \<^verbatim>\<open>xs.slice(s, e)\<close> for \<open>0 \<le> s \<le> e\<close>: both ends are clamped to the length.
\<close>

definition js_slice :: "nat \<Rightarrow> nat \<Rightarrow> 'a list \<Rightarrow> 'a list" where
  "js_slice s e xs = take (e - s) (drop s xs)"

definition currentBatchData :: "world \<Rightarrow> MCQItem list" where
  "currentBatchData w =
     js_slice (batchIndex w * BATCH_SIZE) ((batchIndex w + 1) * BATCH_SIZE) (localMcqData w)"

definition hasMore :: "world \<Rightarrow> bool" where
  "hasMore w \<longleftrightarrow> (batchIndex w + 1) * BATCH_SIZE < length (localMcqData w)"

text \<open>
  One round of the \<^verbatim>\<open>reduce\<close> of line 300. \<^verbatim>\<open>localMcqData[qIdx]\<close> is \<^verbatim>\<open>undefined\<close> when
  \<open>qIdx\<close> is not an index of the array, and reading \<^verbatim>\<open>.correctAnswer\<close> of it throws a
  TypeError, which ends the reduce. \<^verbatim>\<open>===\<close> between \<^verbatim>\<open>null\<close> and a number is false.
\<close>

definition score_step :: "world \<Rightarrow> js_error + nat \<Rightarrow> nat \<Rightarrow> js_error + nat" where
  "score_step w acc qIdx =
     (case acc of
        Inl err \<Rightarrow> Inl err
      | Inr n \<Rightarrow>
          if qIdx < length (localMcqData w)
          then Inr (n + (if DAList.lookup (mcqState w) qIdx
                            = Some (Some (correctAnswer (localMcqData w ! qIdx)))
                         then 1 else 0))
          else Inl TypeError)"

text \<open>The comparison of line 302 at a position of the order.\<close>

definition hit :: "world \<Rightarrow> nat \<Rightarrow> bool" where
  "hit w p \<longleftrightarrow>
     DAList.lookup (mcqState w) p = Some (Some (correctAnswer (localMcqData w ! p)))"

definition score :: "world \<Rightarrow> js_error + nat" where
  "score w = foldl (score_step w) (Inr 0) (Object_keys (mcqState w))"

definition attemptedCount :: "world \<Rightarrow> nat" where
  "attemptedCount w = length (Object_keys (mcqState w))"

definition minRequired :: "world \<Rightarrow> nat" where
  "minRequired w = min 50 (length (localMcqData w))"

definition canSubmit :: "world \<Rightarrow> bool" where
  "canSubmit w \<longleftrightarrow> attemptedCount w \<ge> minRequired w"

text \<open>Line 392: \<^verbatim>\<open>userAnswer !== undefined && userAnswer !== null\<close>.\<close>

definition isAnswered :: "world \<Rightarrow> nat \<Rightarrow> bool" where
  "isAnswered w idx \<longleftrightarrow>
     (case DAList.lookup (mcqState w) idx of
        None \<Rightarrow> False | Some None \<Rightarrow> False | Some (Some _) \<Rightarrow> True)"

text \<open>
  Line 498, the \<^verbatim>\<open>some\<close> of the Next button: is a position of the current page
  \<^verbatim>\<open>undefined\<close> in \<^verbatim>\<open>mcqState\<close>?
\<close>

definition pageHasUndefined :: "world \<Rightarrow> bool" where
  "pageHasUndefined w \<longleftrightarrow>
     list_ex (\<lambda>i. DAList.lookup (mcqState w) (batchIndex w * BATCH_SIZE + i) = None)
       [0 ..< length (currentBatchData w)]"

subsection \<open>Effects\<close>

text \<open>Line 211: the branch that holds the whole engine. An empty array is truthy.\<close>

definition mcqBranch :: "env \<Rightarrow> bool" where
  "mcqBranch e \<longleftrightarrow> (ctype e = MCQ_ANALYSIS \<or> ctype e = MCQ_SIMPLE) \<and> mcqData e \<noteq> None"

text \<open>\<^verbatim>\<open>content.mcqData || []\<close>\<close>

definition mcqData_or_empty :: "env \<Rightarrow> MCQItem list" where
  "mcqData_or_empty e = (case mcqData e of None \<Rightarrow> [] | Some d \<Rightarrow> d)"

text \<open>The resume and shuffle effect, lines 214 to 239.\<close>

definition resumeShuffleEffect :: "env \<Rightarrow> world \<Rightarrow> world" where
  "resumeShuffleEffect e w =
     (case mcqData e of
        None \<Rightarrow> w
      | Some d \<Rightarrow>
          (case userAnswers e of
             Some ua \<Rightarrow>
               w\<lparr>mcqState := ua, showResults := True, analysisUnlocked := True,
                 localMcqData := d\<rparr>
           | None \<Rightarrow>
               (case sort_random (random e) (draws w) d of
                  (shuffled, n) \<Rightarrow>
                    if truthy (storage w (progressKey e))
                    then w\<lparr>showResumePrompt := True, localMcqData := shuffled, draws := n\<rparr>
                    else w\<lparr>localMcqData := shuffled, draws := n\<rparr>)))"

text \<open>
  The auto-save effect, lines 242 to 251: the only \<^verbatim>\<open>localStorage.setItem\<close> of the file.
  What is written is the string that parses back to the three fields.
\<close>

definition autoSave :: "env \<Rightarrow> world \<Rightarrow> world" where
  "autoSave e w =
     (if \<not> showResults w \<and> length (Object_keys (mcqState w)) > 0
      then w\<lparr>storage := (storage w)(progressKey e \<mapsto>
                Parses \<lparr>saved_mcqState = Some (mcqState w),
                        saved_batchIndex = Some (batchIndex w),
                        saved_localMcqData = Some (localMcqData w)\<rparr>)\<rparr>
      else w)"

text \<open>The timer effect, lines 74 to 82, at one firing of the interval.\<close>

definition tick :: "world \<Rightarrow> world" where
  "tick w =
     (if \<not> showResults w \<and> \<not> showSubmitModal w \<and> \<not> showResumePrompt w
      then w\<lparr>sessionTime := sessionTime w + 1\<rparr>
      else w)"

subsection \<open>Handlers\<close>

text \<open>
  \<^verbatim>\<open>handleResume\<close>, lines 254 to 264. \<^verbatim>\<open>JSON.parse\<close> is not inside a \<^verbatim>\<open>try\<close>: a SyntaxError
  leaves the handler before any setter runs, and so does the TypeError of reading
  \<^verbatim>\<open>parsed.mcqState\<close> when \<^verbatim>\<open>parsed\<close> is \<^verbatim>\<open>null\<close>.
\<close>

definition handleResume :: "env \<Rightarrow> world \<Rightarrow> js_error + world" where
  "handleResume e w =
     (case storage w (progressKey e) of
        None \<Rightarrow> Inr (w\<lparr>showResumePrompt := False\<rparr>)
      | Some EmptyText \<Rightarrow> Inr (w\<lparr>showResumePrompt := False\<rparr>)
      | Some Unparseable \<Rightarrow> Inl SyntaxError
      | Some ParsesNull \<Rightarrow> Inl TypeError
      | Some (Parses parsed) \<Rightarrow>
          Inr (w\<lparr>mcqState :=
                   (case saved_mcqState parsed of None \<Rightarrow> DAList.empty | Some st \<Rightarrow> st),
                 batchIndex :=
                   (case saved_batchIndex parsed of None \<Rightarrow> 0 | Some b \<Rightarrow> b),
                 localMcqData :=
                   (case saved_localMcqData parsed of
                      None \<Rightarrow> localMcqData w | Some d \<Rightarrow> d),
                 showResumePrompt := False\<rparr>))"

text \<open>\<^verbatim>\<open>handleRestart\<close>, lines 266 to 275.\<close>

definition handleRestart :: "env \<Rightarrow> world \<Rightarrow> world" where
  "handleRestart e w =
     (case sort_random (random e) (draws w) (mcqData_or_empty e) of
        (shuffled, n) \<Rightarrow>
          w\<lparr>storage := (storage w)(progressKey e := None),
            mcqState := DAList.empty, batchIndex := 0, localMcqData := shuffled,
            showResumePrompt := False, analysisUnlocked := False, showResults := False,
            draws := n\<rparr>)"

text \<open>
  \<^verbatim>\<open>handleRecreate\<close>, lines 277 to 294, only opens the confirmation dialog and installs
  the \<^verbatim>\<open>onConfirm\<close> closure, which does the work when the dialog is confirmed, with the
  question set and the key of the render that installed it.
\<close>

definition handleRecreate :: "env \<Rightarrow> world \<Rightarrow> world" where
  "handleRecreate e w =
     w\<lparr>confirmOpen := True, confirm_mcqData := mcqData_or_empty e,
       confirm_key := progressKey e\<rparr>"

definition recreate_onConfirm :: "env \<Rightarrow> world \<Rightarrow> world" where
  "recreate_onConfirm e w =
     (case sort_random (random e) (draws w) (confirm_mcqData w) of
        (shuffled, n) \<Rightarrow>
          w\<lparr>localMcqData := shuffled, mcqState := DAList.empty, batchIndex := 0,
            showResults := False, analysisUnlocked := False,
            storage := (storage w)(confirm_key w := None),
            confirmOpen := False, draws := n\<rparr>)"

text \<open>
  \<^verbatim>\<open>handleConfirmSubmit\<close>, lines 309 to 314. The \<^verbatim>\<open>score\<close> it passes on is the one of the
  render that created the closure; a render whose \<^verbatim>\<open>reduce\<close> threw offers no handler.
  It sets neither \<^verbatim>\<open>showResults\<close> nor \<^verbatim>\<open>analysisUnlocked\<close>.
\<close>

definition handleConfirmSubmit :: "env \<Rightarrow> world \<Rightarrow> js_error + world" where
  "handleConfirmSubmit e w =
     (case score w of
        Inl err \<Rightarrow> Inl err
      | Inr s \<Rightarrow>
          Inr (w\<lparr>showSubmitModal := False,
                 storage := (storage w)(progressKey e := None),
                 completions :=
                   (if onMCQComplete e
                    then \<lparr>count = s, given_answers = mcqState w,
                          usedData = localMcqData w, timeTaken = sessionTime w\<rparr>
                         # completions w
                    else completions w)\<rparr>))"

text \<open>
  Modelled from the spec: \<^verbatim>\<open>handleSubmitRequest\<close> is the \<^verbatim>\<open>onClick\<close> of the SUBMIT button
  (line 478) and is declared nowhere in the source file. The spec's RequestSubmit "opens
  a confirmation step"; the button is rendered while \<^verbatim>\<open>!showResults\<close> and disabled
  while \<^verbatim>\<open>!canSubmit\<close> (lines 475 to 479).
\<close>

definition handleSubmitRequest :: "world \<Rightarrow> world" where
  "handleSubmitRequest w = w\<lparr>showSubmitModal := True\<rparr>"

text \<open>
  The option button of lines 420 to 424. It exists for the questions of the current
  page and the options of each; it is disabled by \<^verbatim>\<open>isAnswered || showResults\<close>, and a
  disabled button does not call its \<^verbatim>\<open>onClick\<close>.
\<close>

definition optionRendered :: "world \<Rightarrow> nat \<Rightarrow> nat \<Rightarrow> bool" where
  "optionRendered w idx oIdx \<longleftrightarrow>
     batchIndex w * BATCH_SIZE \<le> idx \<and>
     idx < batchIndex w * BATCH_SIZE + length (currentBatchData w) \<and>
     oIdx < length (options (localMcqData w ! idx))"

definition optionDisabled :: "world \<Rightarrow> nat \<Rightarrow> bool" where
  "optionDisabled w idx \<longleftrightarrow> isAnswered w idx \<or> showResults w"

definition selectOption :: "world \<Rightarrow> nat \<Rightarrow> nat \<Rightarrow> world" where
  "selectOption w idx oIdx =
     (if optionRendered w idx oIdx \<and> \<not> optionDisabled w idx
      then w\<lparr>mcqState := DAList.update idx (Some (int oIdx)) (mcqState w)\<rparr>
      else w)"

text \<open>The Next button, lines 492 to 503, and the Prev button, lines 461 to 471.\<close>

definition nextDisabled :: "world \<Rightarrow> bool" where
  "nextDisabled w \<longleftrightarrow> \<not> showResults w \<and> pageHasUndefined w"

definition clickNext :: "world \<Rightarrow> world" where
  "clickNext w =
     (if hasMore w \<and> \<not> nextDisabled w
      then w\<lparr>batchIndex := batchIndex w + 1\<rparr>
      else w)"

definition clickPrev :: "world \<Rightarrow> world" where
  "clickPrev w = (if batchIndex w > 0 then w\<lparr>batchIndex := batchIndex w - 1\<rparr> else w)"

subsection \<open>Events\<close>

text \<open>
  What can happen to a mounted quiz: the resume and shuffle effect runs (at mount and
  when the props it depends on change), the timer fires, or the user presses a button.
  A button acts only while it is rendered and enabled. The auto-save effect runs after
  the render that follows, when one of \<^verbatim>\<open>mcqState\<close>, \<^verbatim>\<open>batchIndex\<close>, \<^verbatim>\<open>localMcqData\<close>,
  \<^verbatim>\<open>showResults\<close> was set to a new value or a new object; when that render throws, as
  the score computation can, no effect runs and the component ends. An exception thrown by an
  event handler is not caught by the component: the handler stops where it threw, the
  state stays as the setters that ran before left it, and the component stays mounted.
\<close>

definition afterRender :: "env \<Rightarrow> world \<Rightarrow> js_error + world" where
  "afterRender e w =
     (case score w of Inl err \<Rightarrow> Inl err | Inr _ \<Rightarrow> Inr (autoSave e w))"

datatype event =
    Mount | Tick
  | Resume | Restart
  | Recreate | ConfirmDialog | CancelDialog
  | Select nat nat
  | SubmitRequest | ConfirmSubmit | CancelSubmit
  | Next | Prev

fun dispatch :: "env \<Rightarrow> event \<Rightarrow> world \<Rightarrow> js_error + world" where
  "dispatch e Mount w = afterRender e (resumeShuffleEffect e w)"
| "dispatch e Tick w = Inr (tick w)"
| "dispatch e Resume w =
     (if showResumePrompt w \<and> \<not> showResults w
      then (case handleResume e w of
              Inl err \<Rightarrow> Inr (w\<lparr>uncaught := err # uncaught w\<rparr>)
            | Inr w' \<Rightarrow>
                if truthy (storage w (progressKey e)) then afterRender e w' else Inr w')
      else Inr w)"
| "dispatch e Restart w =
     (if showResumePrompt w \<and> \<not> showResults w
      then afterRender e (handleRestart e w) else Inr w)"
| "dispatch e Recreate w = (if \<not> showResults w then Inr (handleRecreate e w) else Inr w)"
| "dispatch e ConfirmDialog w =
     (if confirmOpen w then afterRender e (recreate_onConfirm e w) else Inr w)"
| "dispatch e CancelDialog w = Inr (w\<lparr>confirmOpen := False\<rparr>)"
| "dispatch e (Select idx oIdx) w =
     (if optionRendered w idx oIdx \<and> \<not> optionDisabled w idx
      then afterRender e (selectOption w idx oIdx) else Inr w)"
| "dispatch e SubmitRequest w =
     (if \<not> showResults w \<and> canSubmit w then Inr (handleSubmitRequest w) else Inr w)"
| "dispatch e ConfirmSubmit w = (if showSubmitModal w then handleConfirmSubmit e w else Inr w)"
| "dispatch e CancelSubmit w = Inr (w\<lparr>showSubmitModal := False\<rparr>)"
| "dispatch e Next w =
     (if hasMore w \<and> \<not> nextDisabled w then afterRender e (clickNext w) else Inr w)"
| "dispatch e Prev w =
     (if batchIndex w > 0 then afterRender e (clickPrev w) else Inr w)"

text \<open>
  Nothing of the quiz is rendered outside the branch of line 211, and its effects are
  declared inside it; only the timer effect is declared before the branches and runs
  whatever is shown. A state whose render throws has no component left to receive an
  event: \<open>Inl\<close>.
\<close>

definition step :: "env \<Rightarrow> event \<Rightarrow> world \<Rightarrow> js_error + world" where
  "step e ev w =
     (if \<not> mcqBranch e then Inr (if ev = Tick then tick w else w)
      else (case score w of Inl err \<Rightarrow> Inl err | Inr _ \<Rightarrow> dispatch e ev w))"

fun run :: "env \<Rightarrow> event list \<Rightarrow> world \<Rightarrow> js_error + world" where
  "run e [] w = Inr w"
| "run e (ev # evs) w =
     (case step e ev w of Inl err \<Rightarrow> Inl err | Inr w' \<Rightarrow> run e evs w')"

text \<open>
  The modes of the spec, read off the flags as the render does: the header shows
  "Analysis Mode" when \<^verbatim>\<open>showResults\<close> (line 373), the resume prompt is shown when
  \<^verbatim>\<open>showResumePrompt && !showResults\<close> (line 323).
\<close>

datatype session_mode = Analysis | ResumePending | Active

definition mode :: "world \<Rightarrow> session_mode" where
  "mode w = (if showResults w then Analysis
             else if showResumePrompt w then ResumePending else Active)"

subsection \<open>Concrete sessions\<close>

text \<open>Inputs at which the theorems below are evaluated.\<close>

definition item :: "int \<Rightarrow> MCQItem" where
  "item c = \<lparr>question = ''Q'', options = [''A'', ''B'', ''C'', ''D''],
             correctAnswer = c, explanation = None\<rparr>"

text \<open>The object literal \<^verbatim>\<open>{k1: v1, k2: v2, ...}\<close>.\<close>

definition answers_of :: "(nat \<times> int option) list \<Rightarrow> answers" where
  "answers_of kvs = foldl (\<lambda>st (k, v). DAList.update k v st) DAList.empty kvs"

text \<open>A session over \<open>m\<close> copies of one question in which positions \<open>0\<close> to \<open>n - 1\<close> are answered.\<close>

definition answered_upto :: "nat \<Rightarrow> nat \<Rightarrow> world" where
  "answered_upto n m =
     (initial Map.empty)\<lparr>mcqState := answers_of (map (\<lambda>k. (k, Some 0)) [0 ..< n]),
                          localMcqData := replicate m (item 0)\<rparr>"

definition stray_key_state :: world where
  "stray_key_state =
     (initial Map.empty)\<lparr>mcqState := answers_of [(5, Some 0)], localMcqData := [item 0]\<rparr>"

definition two_of_three :: world where
  "two_of_three =
     (initial Map.empty)\<lparr>mcqState := answers_of [(0, Some 1), (2, Some 0)],
                          localMcqData := [item 1, item 1, item 3]\<rparr>"

definition page_world :: "nat \<Rightarrow> nat \<Rightarrow> world" where
  "page_world b m =
     (initial Map.empty)\<lparr>localMcqData := map (\<lambda>i. item (int i)) [0 ..< m], batchIndex := b\<rparr>"

definition resume_env :: env where
  "resume_env = \<lparr>ctype = MCQ_SIMPLE, mcqData = Some [item 0, item 1], userAnswers = None,
                 chapter_id = ''ch1'', onMCQComplete = True, random = (\<lambda>n. even n)\<rparr>"

definition stale_record :: progress where
  "stale_record = \<lparr>saved_mcqState = Some (answers_of [(3, Some 1)]),
                   saved_batchIndex = Some 0, saved_localMcqData = None\<rparr>"

definition stale_world :: world where
  "stale_world =
     (initial [progressKey resume_env \<mapsto> Parses stale_record])
       \<lparr>localMcqData := [item 1, item 0], showResumePrompt := True\<rparr>"

definition corrupt_store :: "string \<rightharpoonup> stored_text" where
  "corrupt_store = [progressKey resume_env \<mapsto> Unparseable]"

definition saved_record :: progress where
  "saved_record = \<lparr>saved_mcqState = Some (answers_of [(1, Some 0)]),
                   saved_batchIndex = Some 0,
                   saved_localMcqData = Some [item 0, item 1]\<rparr>"

definition saved_store :: "string \<rightharpoonup> stored_text" where
  "saved_store = [progressKey resume_env \<mapsto> Parses saved_record]"

definition pending_world :: "(string \<rightharpoonup> stored_text) \<Rightarrow> world" where
  "pending_world store =
     (initial store)\<lparr>localMcqData := [item 1, item 0], showResumePrompt := True, draws := 1\<rparr>"

definition ready_world :: world where
  "ready_world =
     (initial [progressKey resume_env \<mapsto>
                 Parses \<lparr>saved_mcqState = Some (answers_of [(0, Some 0), (1, Some 0)]),
                         saved_batchIndex = Some 0,
                         saved_localMcqData = Some [item 1, item 0]\<rparr>])
       \<lparr>mcqState := answers_of [(0, Some 0), (1, Some 0)],
        localMcqData := [item 1, item 0], showSubmitModal := True, draws := 1\<rparr>"

definition empty_env :: env where
  "empty_env = \<lparr>ctype = MCQ_SIMPLE, mcqData = Some [], userAnswers = None,
                chapter_id = ''ch1'', onMCQComplete = True, random = (\<lambda>n. even n)\<rparr>"

definition absent_env :: env where
  "absent_env = \<lparr>ctype = MCQ_SIMPLE, mcqData = None, userAnswers = None,
                 chapter_id = ''ch1'', onMCQComplete = True, random = (\<lambda>n. even n)\<rparr>"

definition recreate_world :: world where
  "recreate_world = ready_world\<lparr>showSubmitModal := False, showResults := True,
                                 confirmOpen := True, confirm_mcqData := [item 0, item 1],
                                 confirm_key := progressKey resume_env, batchIndex := 3\<rparr>"

definition null_answers :: answers where
  "null_answers = answers_of (map (\<lambda>k. (k, None)) [0 ..< 50])"

definition null_page_record :: progress where
  "null_page_record = \<lparr>saved_mcqState = Some null_answers, saved_batchIndex = Some 0,
                       saved_localMcqData = Some (replicate 51 (item 0))\<rparr>"

definition null_store :: "string \<rightharpoonup> stored_text" where
  "null_store = [progressKey resume_env \<mapsto> Parses null_page_record]"

definition submitted_page :: "nat \<Rightarrow> world" where
  "submitted_page b = (answered_upto 50 120)\<lparr>batchIndex := b, showSubmitModal := True\<rparr>"

definition history_env :: env where
  "history_env = resume_env\<lparr>userAnswers := Some (answers_of [(0, Some 0)])\<rparr>"

subsection \<open>Auxiliary notions of the proofs\<close>

text \<open>What the auto-save effect writes in the state \<open>w\<close>.\<close>

definition record_of :: "world \<Rightarrow> stored_text" where
  "record_of w = Parses \<lparr>saved_mcqState = Some (mcqState w),
                         saved_batchIndex = Some (batchIndex w),
                         saved_localMcqData = Some (localMcqData w)\<rparr>"


section \<open>Verification\<close>

subsection \<open>Auxiliary facts\<close>

lemma mset_place: "mset (fst (place r n x ys)) = add_mset x (mset ys)"
  by (induction ys arbitrary: n) (simp_all add: case_prod_beta)

lemma mset_sort_random: "mset (fst (sort_random r n xs)) = mset xs"
  by (induction xs arbitrary: n) (simp_all add: case_prod_beta mset_place)

lemma set_Object_keys: "set (Object_keys st) = dom (DAList.lookup st)"
  by (simp add: Object_keys_def DAList.lookup.rep_eq dom_map_of_conv_image_fst)

lemma distinct_Object_keys: "distinct (Object_keys st)"
  by (simp add: Object_keys_def)

lemma Object_keys_empty: "Object_keys DAList.empty = []"
  by (simp add: Object_keys_def DAList.empty.rep_eq)

lemma Object_keys_update:
  "Object_keys (DAList.update k v st) =
     (if k \<in> set (Object_keys st) then Object_keys st else Object_keys st @ [k])"
  by (simp add: Object_keys_def DAList.update.rep_eq update_keys)

lemma foldl_score_step_Inl: "foldl (score_step w) (Inl err) ks = Inl err"
  by (induction ks) (simp_all add: score_step_def)

lemma foldl_score_step_valid:
  "\<forall>k \<in> set ks. k < length (localMcqData w) \<Longrightarrow>
   foldl (score_step w) (Inr n) ks = Inr (n + length (filter (hit w) ks))"
  by (induction ks arbitrary: n) (simp_all add: score_step_def hit_def)

lemma foldl_score_step_invalid:
  "\<exists>k \<in> set ks. \<not> k < length (localMcqData w) \<Longrightarrow>
   foldl (score_step w) (Inr n) ks = Inl TypeError"
  by (induction ks arbitrary: n) (auto simp add: score_step_def foldl_score_step_Inl)

lemma score_valid:
  assumes "\<forall>k \<in> set (Object_keys (mcqState w)). k < length (localMcqData w)"
  shows "score w = Inr (card {p. p < length (localMcqData w) \<and> hit w p})"
proof -
  let ?ks = "Object_keys (mcqState w)"
  have "score w = Inr (length (filter (hit w) ?ks))"
    using foldl_score_step_valid [OF assms, of 0] by (simp add: score_def)
  moreover have "length (filter (hit w) ?ks) = card (set (filter (hit w) ?ks))"
    by (simp only: distinct_card [OF distinct_filter [OF distinct_Object_keys]])
  moreover have "set (filter (hit w) ?ks) = {p. p < length (localMcqData w) \<and> hit w p}"
    using assms by (auto simp: set_Object_keys hit_def)
  ultimately show ?thesis by simp
qed

lemma score_invalid:
  assumes "\<exists>k \<in> set (Object_keys (mcqState w)). length (localMcqData w) \<le> k"
  shows "score w = Inl TypeError"
proof -
  from assms have "\<exists>k \<in> set (Object_keys (mcqState w)). \<not> k < length (localMcqData w)"
    by (simp add: not_less)
  then show ?thesis
    unfolding score_def by (rule foldl_score_step_invalid)
qed

lemma attempted_card: "attemptedCount w = card (dom (DAList.lookup (mcqState w)))"
  by (metis attemptedCount_def distinct_card distinct_Object_keys set_Object_keys)

lemma attempted_le_length:
  assumes "\<forall>k \<in> set (Object_keys (mcqState w)). k < length (localMcqData w)"
  shows "attemptedCount w \<le> length (localMcqData w)"
proof -
  have "set (Object_keys (mcqState w)) \<subseteq> {..< length (localMcqData w)}"
    using assms by auto
  then have "card (set (Object_keys (mcqState w))) \<le> card {..< length (localMcqData w)}"
    by (intro card_mono) simp_all
  then show ?thesis
    by (simp add: attemptedCount_def distinct_card [OF distinct_Object_keys])
qed

lemma attempted_selectOption:
  "attemptedCount w \<le> attemptedCount (selectOption w idx oIdx) \<and>
   attemptedCount (selectOption w idx oIdx) \<le> attemptedCount w + 1"
  by (simp add: selectOption_def attemptedCount_def Object_keys_update)

lemma answers_of_snoc:
  "answers_of (kvs @ [(k, v)]) = DAList.update k v (answers_of kvs)"
  by (simp add: answers_of_def)

lemma Object_keys_answers_upto:
  "Object_keys (answers_of (map (\<lambda>k. (k, v)) [0 ..< n])) = [0 ..< n]"
  by (induction n) (simp_all add: answers_of_snoc Object_keys_update, simp add: answers_of_def Object_keys_empty)

lemma answered_upto_simps:
  "Object_keys (mcqState (answered_upto n m)) = [0 ..< n]"
  "length (localMcqData (answered_upto n m)) = m"
  "attemptedCount (answered_upto n m) = n"
  by (simp_all add: answered_upto_def initial_def Object_keys_answers_upto attemptedCount_def)

lemma score_Inr_iff:
  "(\<exists>n. score w = Inr n) \<longleftrightarrow> (\<forall>k \<in> set (Object_keys (mcqState w)). k < length (localMcqData w))"
proof
  assume "\<exists>n. score w = Inr n"
  then show "\<forall>k \<in> set (Object_keys (mcqState w)). k < length (localMcqData w)"
    using score_invalid [of w] by (fastforce simp: not_less [symmetric])
next
  assume "\<forall>k \<in> set (Object_keys (mcqState w)). k < length (localMcqData w)"
  then show "\<exists>n. score w = Inr n"
    using score_valid [of w] by blast
qed

lemma score_Inl_iff:
  "score w = Inl TypeError \<longleftrightarrow> (\<exists>k \<in> set (Object_keys (mcqState w)). length (localMcqData w) \<le> k)"
proof
  assume "score w = Inl TypeError"
  then have "\<not> (\<exists>n. score w = Inr n)" by simp
  then show "\<exists>k \<in> set (Object_keys (mcqState w)). length (localMcqData w) \<le> k"
    unfolding score_Inr_iff by (auto simp: not_less)
qed (rule score_invalid)

lemma length_currentBatchData:
  "length (currentBatchData w) = min 50 (length (localMcqData w) - batchIndex w * 50)"
  by (simp add: currentBatchData_def js_slice_def BATCH_SIZE_def)

lemma nth_currentBatchData:
  "i < length (currentBatchData w) \<Longrightarrow>
   currentBatchData w ! i = localMcqData w ! (batchIndex w * 50 + i)"
proof -
  assume "i < length (currentBatchData w)"
  then have "i < 50" and "batchIndex w * 50 \<le> length (localMcqData w)"
    by (auto simp add: currentBatchData_def js_slice_def BATCH_SIZE_def)
  then show ?thesis
    by (simp add: currentBatchData_def js_slice_def BATCH_SIZE_def)
qed

lemma page_world_simps:
  "length (localMcqData (page_world b m)) = m"
  "batchIndex (page_world b m) = b"
  "i < m \<Longrightarrow> localMcqData (page_world b m) ! i = item (int i)"
  by (simp_all add: page_world_def initial_def)

text \<open>The definitions unfolded to evaluate a concrete session.\<close>

lemmas engine_defs =
  step_def mcqBranch_def score_def score_step_def Object_keys_def attemptedCount_def
  canSubmit_def minRequired_def resumeShuffleEffect_def autoSave_def tick_def
  afterRender_def handleResume_def handleRestart_def handleRecreate_def recreate_onConfirm_def
  handleConfirmSubmit_def handleSubmitRequest_def optionRendered_def optionDisabled_def
  selectOption_def isAnswered_def clickNext_def clickPrev_def nextDisabled_def
  pageHasUndefined_def hasMore_def currentBatchData_def js_slice_def BATCH_SIZE_def
  mcqData_or_empty_def mode_def initial_def progressKey_def answers_of_def item_def
  DAList.lookup.rep_eq DAList.update.rep_eq DAList.empty.rep_eq

lemma autoSave_fields:
  "mcqState (autoSave e w) = mcqState w"
  "batchIndex (autoSave e w) = batchIndex w"
  "localMcqData (autoSave e w) = localMcqData w"
  "showResults (autoSave e w) = showResults w"
  "showResumePrompt (autoSave e w) = showResumePrompt w"
  by (simp_all add: autoSave_def)

lemma lookup_update:
  "DAList.lookup (DAList.update k v st) p = (if p = k then Some v else DAList.lookup st p)"
  by (simp add: DAList.lookup.rep_eq DAList.update.rep_eq update_conv')

lemma lookup_None_iff: "DAList.lookup st p = None \<longleftrightarrow> p \<notin> set (Object_keys st)"
  by (simp add: set_Object_keys domIff)

lemma step_rendered:
  "mcqBranch e \<Longrightarrow> score w = Inr s \<Longrightarrow> step e ev w = dispatch e ev w"
  by (simp add: step_def)

lemma length_sort_random: "length (fst (sort_random r n xs)) = length xs"
  using mset_sort_random [of r n xs] by (metis size_mset)

lemma run_outside_branch:
  "\<not> mcqBranch e \<Longrightarrow> \<exists>t. run e evs w = Inr (w\<lparr>sessionTime := t\<rparr>)"
proof (induction evs arbitrary: w)
  case Nil
  have "w = w\<lparr>sessionTime := sessionTime w\<rparr>" by simp
  then show ?case by (metis run.simps(1))
next
  case (Cons ev evs)
  obtain t where t: "step e ev w = Inr (w\<lparr>sessionTime := t\<rparr>)"
  proof (cases "ev = Tick")
    case True
    have "tick w = w\<lparr>sessionTime := sessionTime (tick w)\<rparr>"
      by (simp add: tick_def)
    with Cons.prems True that show ?thesis
      by (metis step_def)
  next
    case False
    have "w = w\<lparr>sessionTime := sessionTime w\<rparr>" by simp
    with Cons.prems False that show ?thesis
      by (metis step_def)
  qed
  from Cons.IH [OF Cons.prems, of "w\<lparr>sessionTime := t\<rparr>"]
  obtain t' where "run e evs (w\<lparr>sessionTime := t\<rparr>) = Inr (w\<lparr>sessionTime := t'\<rparr>)"
    by auto
  with t have "run e (ev # evs) w = Inr (w\<lparr>sessionTime := t'\<rparr>)" by simp
  then show ?case by blast
qed

lemma pageHasUndefined_iff:
  "pageHasUndefined w \<longleftrightarrow>
     (\<exists>p. batchIndex w * 50 \<le> p
          \<and> p < min ((batchIndex w + 1) * 50) (length (localMcqData w))
          \<and> DAList.lookup (mcqState w) p = None)"
proof
  assume "pageHasUndefined w"
  then obtain i where "i < length (currentBatchData w)"
    and "DAList.lookup (mcqState w) (batchIndex w * 50 + i) = None"
    by (auto simp: pageHasUndefined_def list_ex_iff BATCH_SIZE_def)
  then show "\<exists>p. batchIndex w * 50 \<le> p
          \<and> p < min ((batchIndex w + 1) * 50) (length (localMcqData w))
          \<and> DAList.lookup (mcqState w) p = None"
    by (intro exI [of _ "batchIndex w * 50 + i"]) (auto simp: length_currentBatchData)
next
  assume "\<exists>p. batchIndex w * 50 \<le> p
          \<and> p < min ((batchIndex w + 1) * 50) (length (localMcqData w))
          \<and> DAList.lookup (mcqState w) p = None"
  then obtain p where p: "batchIndex w * 50 \<le> p"
    "p < min ((batchIndex w + 1) * 50) (length (localMcqData w))"
    "DAList.lookup (mcqState w) p = None"
    by blast
  define i where "i = p - batchIndex w * 50"
  have "i < length (currentBatchData w)" and "batchIndex w * 50 + i = p"
    using p by (auto simp: i_def length_currentBatchData)
  with p(3) show "pageHasUndefined w"
    by (auto simp: pageHasUndefined_def list_ex_iff BATCH_SIZE_def)
qed

lemma score_cong:
  assumes "mcqState w' = mcqState w" and "localMcqData w' = localMcqData w"
  shows "score w' = score w"
proof -
  have "score_step w' = score_step w"
    by (intro ext) (simp only: score_step_def assms)
  then show ?thesis by (simp add: score_def assms)
qed

lemma score_no_answers: "mcqState w = DAList.empty \<Longrightarrow> score w = Inr 0"
  by (simp add: score_def Object_keys_empty)


lemma score_recreate_onConfirm: "score (recreate_onConfirm e w) = Inr 0"
  by (rule score_no_answers) (simp add: recreate_onConfirm_def case_prod_beta)

lemma score_tick: "score (tick w) = score w"
  by (rule score_cong) (simp_all add: tick_def)

lemma score_handleRecreate: "score (handleRecreate e w) = score w"
  by (rule score_cong) (simp_all add: handleRecreate_def)

lemma score_handleSubmitRequest: "score (handleSubmitRequest w) = score w"
  by (rule score_cong) (simp_all add: handleSubmitRequest_def)

lemma score_clickNext: "score (clickNext w) = score w"
  by (rule score_cong) (simp_all add: clickNext_def)

lemma score_clickPrev: "score (clickPrev w) = score w"
  by (rule score_cong) (simp_all add: clickPrev_def)

lemmas score_kept =
  score_tick score_handleRecreate score_handleSubmitRequest score_clickNext score_clickPrev



lemma afterRender_Inr: "score w = Inr s \<Longrightarrow> afterRender e w = Inr (autoSave e w)"
  by (simp add: afterRender_def)



lemma lookup_answered_upto:
  "DAList.lookup (mcqState (answered_upto n m)) p = None \<longleftrightarrow> n \<le> p"
  by (auto simp add: lookup_None_iff answered_upto_simps)

lemma answered_upto_flags:
  "showResults (answered_upto n m) = False"
  "batchIndex (answered_upto n m) = 0"
  by (simp_all add: answered_upto_def initial_def)

lemma autoSave_storage:
  "storage (autoSave e w) k =
     (if k = progressKey e \<and> \<not> showResults w \<and> 0 < attemptedCount w
      then Some (record_of w) else storage w k)"
  by (simp add: autoSave_def attemptedCount_def record_of_def)

lemma autoSave_derived:
  "attemptedCount (autoSave e w) = attemptedCount w"
  "record_of (autoSave e w) = record_of w"
  "confirmOpen (autoSave e w) = confirmOpen w"
  by (simp_all add: autoSave_def attemptedCount_def record_of_def)



lemma fresh_attempted:
  "attemptedCount (handleRestart e w) = 0"
  "attemptedCount (recreate_onConfirm e w) = 0"
  by (simp_all add: attemptedCount_def handleRestart_def recreate_onConfirm_def
      case_prod_beta Object_keys_empty)










lemma lookup_empty: "DAList.lookup DAList.empty p = None"
  by (simp add: DAList.lookup.rep_eq DAList.empty.rep_eq)

lemma lookup_answers_upto:
  "DAList.lookup (answers_of (map (\<lambda>k. (k, v)) [0 ..< n])) p = (if p < n then Some v else None)"
proof (induction n)
  case 0
  show ?case by (simp add: answers_of_def lookup_empty)
next
  case (Suc n)
  then show ?case by (simp add: answers_of_snoc lookup_update)
qed

lemma null_answers_simps:
  "Object_keys null_answers = [0 ..< 50]"
  "DAList.lookup null_answers p = (if p < 50 then Some None else None)"
  by (simp_all add: null_answers_def Object_keys_answers_upto lookup_answers_upto)

lemma step_Next_rejected:
  assumes "score w = Inr s" and "\<not> showResults w"
    and "batchIndex w * 50 \<le> p" and "p < min ((batchIndex w + 1) * 50) (length (localMcqData w))"
    and "DAList.lookup (mcqState w) p = None"
  shows "step e Next w = Inr w"
proof -
  have "nextDisabled w"
    using assms(2-5) by (auto simp add: nextDisabled_def pageHasUndefined_iff)
  then show ?thesis using assms(1) by (simp add: step_def)
qed

lemma step_Next_taken:
  assumes "mcqBranch e" and "score w = Inr s" and "hasMore w"
    and "showResults w \<or> (\<forall>p. batchIndex w * 50 \<le> p \<and> p < (batchIndex w + 1) * 50
                 \<longrightarrow> DAList.lookup (mcqState w) p \<noteq> None)"
  shows "step e Next w = Inr (autoSave e (w\<lparr>batchIndex := batchIndex w + 1\<rparr>))"
proof -
  have en: "\<not> nextDisabled w"
    using assms(3,4) by (auto simp add: nextDisabled_def pageHasUndefined_iff)
  with assms(3) have eq: "clickNext w = w\<lparr>batchIndex := batchIndex w + 1\<rparr>"
    by (simp add: clickNext_def)
  have "score (clickNext w) = Inr s" using assms(2) by (simp add: score_kept)
  then have "afterRender e (clickNext w) = Inr (autoSave e (clickNext w))"
    by (rule afterRender_Inr)
  with assms(1,2,3) en eq show ?thesis by (simp add: step_def)
qed

lemma step_Prev_taken:
  assumes "mcqBranch e" and "score w = Inr s" and "0 < batchIndex w"
  shows "step e Prev w = Inr (autoSave e (w\<lparr>batchIndex := batchIndex w - 1\<rparr>))"
proof -
  from assms(3) have eq: "clickPrev w = w\<lparr>batchIndex := batchIndex w - 1\<rparr>"
    by (simp add: clickPrev_def)
  have "score (clickPrev w) = Inr s" using assms(2) by (simp add: score_kept)
  then have "afterRender e (clickPrev w) = Inr (autoSave e (clickPrev w))"
    by (rule afterRender_Inr)
  with assms eq show ?thesis by (simp add: step_def)
qed

lemma step_ConfirmSubmit:
  assumes "mcqBranch e" and "score w = Inr s" and "showSubmitModal w"
  shows "step e ConfirmSubmit w =
           Inr (w\<lparr>showSubmitModal := False,
                  storage := (storage w)(progressKey e := None),
                  completions :=
                    (if onMCQComplete e
                     then \<lparr>count = s, given_answers = mcqState w,
                           usedData = localMcqData w, timeTaken = sessionTime w\<rparr>
                          # completions w
                     else completions w)\<rparr>)"
  using assms by (simp add: step_def handleConfirmSubmit_def)

lemma score_answered_upto:
  "n \<le> m \<Longrightarrow> \<exists>s. score (answered_upto n m) = Inr s"
  by (simp add: score_Inr_iff answered_upto_simps)


subsection \<open>Scoring\<close>

text \<open>
  Claim C1, as the code has it. In every session state whose answer keys are positions
  of the session order, \<open>score\<close> is the number of positions whose stored option is the
  correct answer of the question at that position, \<open>attemptedCount\<close> is the number of
  positions that hold an entry, and \<open>canSubmit\<close> holds exactly when
  \<open>attemptedCount \<ge> min 50 |order|\<close>: for 30 questions exactly when all 30 are
  attempted, for 200 questions exactly from 50 attempted on. One selection raises
  \<open>attemptedCount\<close> by at most one, so the threshold is first met at that count.
\<close>

theorem C1_scoring_amended:
  "(\<forall>k \<in> set (Object_keys (mcqState w)). k < length (localMcqData w)) \<longrightarrow>
     score w = Inr (card {p. p < length (localMcqData w) \<and>
                 DAList.lookup (mcqState w) p = Some (Some (correctAnswer (localMcqData w ! p)))})
   \<and> attemptedCount w = card {p. DAList.lookup (mcqState w) p \<noteq> None}
   \<and> (canSubmit w \<longleftrightarrow> attemptedCount w \<ge> min 50 (length (localMcqData w)))
   \<and> (length (localMcqData w) = 30 \<longrightarrow> (canSubmit w \<longleftrightarrow> attemptedCount w = 30))
   \<and> (length (localMcqData w) = 200 \<longrightarrow> (canSubmit w \<longleftrightarrow> attemptedCount w \<ge> 50))
   \<and> attemptedCount w \<le> attemptedCount (selectOption w idx oIdx)
   \<and> attemptedCount (selectOption w idx oIdx) \<le> attemptedCount w + 1"
proof
  assume valid: "\<forall>k \<in> set (Object_keys (mcqState w)). k < length (localMcqData w)"
  have sc: "score w = Inr (card {p. p < length (localMcqData w) \<and>
                 DAList.lookup (mcqState w) p = Some (Some (correctAnswer (localMcqData w ! p)))})"
    using score_valid [OF valid] by (simp add: hit_def)
  have "{p. DAList.lookup (mcqState w) p \<noteq> None} = dom (DAList.lookup (mcqState w))"
    by (simp add: dom_def)
  then have att: "attemptedCount w = card {p. DAList.lookup (mcqState w) p \<noteq> None}"
    by (simp add: attempted_card)
  have cs: "canSubmit w \<longleftrightarrow> attemptedCount w \<ge> min 50 (length (localMcqData w))"
    by (simp add: canSubmit_def minRequired_def)
  have le: "attemptedCount w \<le> length (localMcqData w)"
    by (rule attempted_le_length [OF valid])
  have c30: "length (localMcqData w) = 30 \<longrightarrow> (canSubmit w \<longleftrightarrow> attemptedCount w = 30)"
    using cs le by auto
  have c200: "length (localMcqData w) = 200 \<longrightarrow> (canSubmit w \<longleftrightarrow> attemptedCount w \<ge> 50)"
    using cs by auto
  show "score w = Inr (card {p. p < length (localMcqData w) \<and>
                 DAList.lookup (mcqState w) p = Some (Some (correctAnswer (localMcqData w ! p)))})
   \<and> attemptedCount w = card {p. DAList.lookup (mcqState w) p \<noteq> None}
   \<and> (canSubmit w \<longleftrightarrow> attemptedCount w \<ge> min 50 (length (localMcqData w)))
   \<and> (length (localMcqData w) = 30 \<longrightarrow> (canSubmit w \<longleftrightarrow> attemptedCount w = 30))
   \<and> (length (localMcqData w) = 200 \<longrightarrow> (canSubmit w \<longleftrightarrow> attemptedCount w \<ge> 50))
   \<and> attemptedCount w \<le> attemptedCount (selectOption w idx oIdx)
   \<and> attemptedCount (selectOption w idx oIdx) \<le> attemptedCount w + 1"
    using sc att cs c30 c200 attempted_selectOption [of w idx oIdx] by blast
qed

text \<open>
  The theorem at three sessions: two answers out of three questions, one of them right;
  30 questions, where 29 answers do not open submission and 30 do; 200 questions, where
  49 answers do not and 50 do.
\<close>

theorem C1_scoring_witness:
  "(Object_keys (mcqState two_of_three) = [0, 2] \<and> length (localMcqData two_of_three) = 3
    \<and> score two_of_three = Inr 1 \<and> attemptedCount two_of_three = 2
    \<and> \<not> canSubmit two_of_three)
   \<and> (length (localMcqData (answered_upto 30 30)) = 30
      \<and> canSubmit (answered_upto 30 30) \<and> \<not> canSubmit (answered_upto 29 30))
   \<and> (length (localMcqData (answered_upto 50 200)) = 200
      \<and> canSubmit (answered_upto 50 200) \<and> \<not> canSubmit (answered_upto 49 200))"
proof -
  have keys: "Object_keys (mcqState two_of_three) = [0, 2]"
    by (simp add: two_of_three_def answers_of_def initial_def Object_keys_def
        DAList.update.rep_eq DAList.empty.rep_eq)
  have valid: "\<forall>k \<in> set (Object_keys (mcqState two_of_three)).
                 k < length (localMcqData two_of_three)"
    by (simp add: keys) (simp add: two_of_three_def initial_def)
  have sc: "score two_of_three = Inr 1"
    by (simp add: score_def keys score_step_def)
      (simp add: two_of_three_def answers_of_def initial_def item_def
        DAList.lookup.rep_eq DAList.update.rep_eq DAList.empty.rep_eq)
  have att: "attemptedCount two_of_three = 2"
    by (simp add: attemptedCount_def keys)
  have len: "length (localMcqData two_of_three) = 3"
    by (simp add: two_of_three_def initial_def)
  from C1_scoring_amended [of two_of_three 0 0] valid
  have "canSubmit two_of_three
          \<longleftrightarrow> attemptedCount two_of_three \<ge> min 50 (length (localMcqData two_of_three))"
    by blast
  then have small: "\<not> canSubmit two_of_three"
    by (simp add: att len)
  have v: "\<forall>k \<in> set (Object_keys (mcqState (answered_upto n m))).
             k < length (localMcqData (answered_upto n m))" if "n \<le> m" for n m
    using that by (simp add: answered_upto_simps)
  have a30: "canSubmit (answered_upto 30 30)"
    using C1_scoring_amended [of "answered_upto 30 30" 0 0] v [of 30 30]
    by (simp add: answered_upto_simps)
  have a29: "\<not> canSubmit (answered_upto 29 30)"
    using C1_scoring_amended [of "answered_upto 29 30" 0 0] v [of 29 30]
    by (simp add: answered_upto_simps)
  have a50: "canSubmit (answered_upto 50 200)"
    using C1_scoring_amended [of "answered_upto 50 200" 0 0] v [of 50 200]
    by (simp add: answered_upto_simps)
  have a49: "\<not> canSubmit (answered_upto 49 200)"
    using C1_scoring_amended [of "answered_upto 49 200" 0 0] v [of 49 200]
    by (simp add: answered_upto_simps)
  show ?thesis
    using keys len sc att small a30 a29 a50 a49 by (simp add: answered_upto_simps)
qed

text \<open>
  The claim as written speaks of every session state. In the state \<^verbatim>\<open>mcqState = {5: 0}\<close>
  over a single question, \<^verbatim>\<open>localMcqData[5]\<close> is \<^verbatim>\<open>undefined\<close> and the reduce throws: no
  score is computed.
\<close>

theorem C1_scoring_counterexample: "score stray_key_state = Inl TypeError"
  by (simp add: stray_key_state_def answers_of_def initial_def item_def score_def
      score_step_def Object_keys_def DAList.update.rep_eq DAList.empty.rep_eq)

subsection \<open>Loading saved progress\<close>

text \<open>
  Claim C2, as the code has it. When the value stored under the chapter's progress key
  is absent, empty, or a string that \<^verbatim>\<open>JSON.parse\<close> turns into a value other than \<^verbatim>\<open>null\<close>,
  records with missing fields included, \<^verbatim>\<open>handleResume\<close> completes and closes the resume
  prompt: an absent or empty value leaves answers, batch index and order as they are,
  and a parsed record restores the three, every missing field falling back to its
  default (no answers, batch 0, the order already shuffled). A record written by the
  auto-save effect is read back as it was written.
\<close>

theorem C2_resume_amended:
  "(storage w (progressKey e) \<noteq> Some Unparseable
    \<and> storage w (progressKey e) \<noteq> Some ParsesNull \<longrightarrow>
   (\<exists>w'. handleResume e w = Inr w'
      \<and> \<not> showResumePrompt w' \<and> storage w' = storage w \<and> showResults w' = showResults w
      \<and> (\<not> truthy (storage w (progressKey e)) \<longrightarrow>
            mcqState w' = mcqState w \<and> batchIndex w' = batchIndex w
            \<and> localMcqData w' = localMcqData w)
      \<and> (\<forall>parsed. storage w (progressKey e) = Some (Parses parsed) \<longrightarrow>
            mcqState w' = (case saved_mcqState parsed of None \<Rightarrow> DAList.empty | Some st \<Rightarrow> st)
            \<and> batchIndex w' = (case saved_batchIndex parsed of None \<Rightarrow> 0 | Some b \<Rightarrow> b)
            \<and> localMcqData w' =
                (case saved_localMcqData parsed of None \<Rightarrow> localMcqData w | Some d \<Rightarrow> d))))
   \<and> (\<not> showResults w \<and> 0 < attemptedCount w \<longrightarrow>
        handleResume e (autoSave e w) = Inr ((autoSave e w)\<lparr>showResumePrompt := False\<rparr>))"
proof (intro conjI impI)
  assume ok: "storage w (progressKey e) \<noteq> Some Unparseable
              \<and> storage w (progressKey e) \<noteq> Some ParsesNull"
  show "\<exists>w'. handleResume e w = Inr w'
      \<and> \<not> showResumePrompt w' \<and> storage w' = storage w \<and> showResults w' = showResults w
      \<and> (\<not> truthy (storage w (progressKey e)) \<longrightarrow>
            mcqState w' = mcqState w \<and> batchIndex w' = batchIndex w
            \<and> localMcqData w' = localMcqData w)
      \<and> (\<forall>parsed. storage w (progressKey e) = Some (Parses parsed) \<longrightarrow>
            mcqState w' = (case saved_mcqState parsed of None \<Rightarrow> DAList.empty | Some st \<Rightarrow> st)
            \<and> batchIndex w' = (case saved_batchIndex parsed of None \<Rightarrow> 0 | Some b \<Rightarrow> b)
            \<and> localMcqData w' =
                (case saved_localMcqData parsed of None \<Rightarrow> localMcqData w | Some d \<Rightarrow> d))"
  proof (cases "storage w (progressKey e)")
    case None
    then show ?thesis by (simp add: handleResume_def)
  next
    case (Some held)
    with ok show ?thesis by (cases held) (simp_all add: handleResume_def)
  qed
next
  assume "\<not> showResults w \<and> 0 < attemptedCount w"
  then show "handleResume e (autoSave e w) = Inr ((autoSave e w)\<lparr>showResumePrompt := False\<rparr>)"
    by (simp add: handleResume_def autoSave_def attemptedCount_def)
qed

text \<open>The theorem at a session mounted over a stored record of one answer.\<close>

theorem C2_resume_witness:
  "run resume_env [Mount] (initial saved_store) = Inr (pending_world saved_store)
   \<and> storage (pending_world saved_store) (progressKey resume_env) = Some (Parses saved_record)
   \<and> (\<exists>w'. handleResume resume_env (pending_world saved_store) = Inr w'
          \<and> \<not> showResumePrompt w' \<and> mcqState w' = answers_of [(1, Some 0)]
          \<and> batchIndex w' = 0 \<and> localMcqData w' = [item 0, item 1])"
proof -
  have reach: "run resume_env [Mount] (initial saved_store) = Inr (pending_world saved_store)"
    by (simp add: pending_world_def saved_store_def resume_env_def engine_defs)
  have st: "storage (pending_world saved_store) (progressKey resume_env)
              = Some (Parses saved_record)"
    by (simp add: pending_world_def saved_store_def initial_def)
  from C2_resume_amended [of "pending_world saved_store" resume_env] st
  obtain w' where "handleResume resume_env (pending_world saved_store) = Inr w'"
    "\<not> showResumePrompt w'"
    "mcqState w' = (case saved_mcqState saved_record of None \<Rightarrow> DAList.empty | Some st \<Rightarrow> st)"
    "batchIndex w' = (case saved_batchIndex saved_record of None \<Rightarrow> 0 | Some b \<Rightarrow> b)"
    "localMcqData w' = (case saved_localMcqData saved_record of
                          None \<Rightarrow> localMcqData (pending_world saved_store) | Some d \<Rightarrow> d)"
    by auto
  then have "handleResume resume_env (pending_world saved_store) = Inr w'
          \<and> \<not> showResumePrompt w' \<and> mcqState w' = answers_of [(1, Some 0)]
          \<and> batchIndex w' = 0 \<and> localMcqData w' = [item 0, item 1]"
    by (simp add: saved_record_def)
  with reach st show ?thesis by blast
qed

text \<open>
  The claim as written covers every stored value. A stored string that is not JSON makes
  \<^verbatim>\<open>JSON.parse\<close> throw inside \<^verbatim>\<open>handleResume\<close>, where nothing catches it: no setter runs,
  the resume prompt stays open, and the record is not treated as absent.
\<close>

theorem C2_resume_counterexample:
  "handleResume resume_env (pending_world corrupt_store) = Inl SyntaxError
   \<and> map_sum id (\<lambda>w. (showResumePrompt w, uncaught w))
        (run resume_env [Mount, Resume] (initial corrupt_store)) = Inr (True, [SyntaxError])"
  by (simp add: pending_world_def corrupt_store_def resume_env_def engine_defs)

subsection \<open>Confirming the submission\<close>

text \<open>
  Claim C3, as the code has it. \<^verbatim>\<open>handleConfirmSubmit\<close>, pressed in the submit dialog,
  removes the progress record of the chapter and no other key, closes the dialog, and,
  when the host passed \<^verbatim>\<open>onMCQComplete\<close>, calls it exactly once with the score, the
  answers, the session order and the elapsed seconds. It changes neither
  \<^verbatim>\<open>showResults\<close> nor the answers, the order or the batch index: the component does not
  enter the analysis mode by itself.
\<close>

theorem C3_confirm_submit_amended:
  "showSubmitModal w \<and> mcqBranch e \<and> score w = Inr s \<longrightarrow>
    (\<exists>w'. step e ConfirmSubmit w = Inr w'
       \<and> storage w' (progressKey e) = None
       \<and> (\<forall>k. k \<noteq> progressKey e \<longrightarrow> storage w' k = storage w k)
       \<and> \<not> showSubmitModal w'
       \<and> showResults w' = showResults w \<and> analysisUnlocked w' = analysisUnlocked w
       \<and> mcqState w' = mcqState w \<and> localMcqData w' = localMcqData w
       \<and> batchIndex w' = batchIndex w
       \<and> completions w' =
           (if onMCQComplete e
            then [\<lparr>count = s, given_answers = mcqState w, usedData = localMcqData w,
                   timeTaken = sessionTime w\<rparr>]
            else []) @ completions w)"
  by (simp add: step_def handleConfirmSubmit_def)

text \<open>
  The theorem at a session of two questions, mounted, answered in full and taken to
  the submit dialog.
\<close>

theorem C3_confirm_submit_witness:
  "run resume_env [Mount, Select 0 0, Select 1 0, SubmitRequest] (initial Map.empty)
     = Inr ready_world
   \<and> showSubmitModal ready_world \<and> mcqBranch resume_env \<and> score ready_world = Inr 1
   \<and> onMCQComplete resume_env
   \<and> (\<exists>w'. step resume_env ConfirmSubmit ready_world = Inr w'
          \<and> storage w' (progressKey resume_env) = None
          \<and> completions w' =
               [\<lparr>count = 1, given_answers = answers_of [(0, Some 0), (1, Some 0)],
                 usedData = [item 1, item 0], timeTaken = 0\<rparr>])"
proof -
  have reach: "run resume_env [Mount, Select 0 0, Select 1 0, SubmitRequest] (initial Map.empty)
                 = Inr ready_world"
    by (simp add: ready_world_def resume_env_def engine_defs)
  have m: "showSubmitModal ready_world" by (simp add: ready_world_def initial_def)
  have b: "mcqBranch resume_env" by (simp add: mcqBranch_def resume_env_def)
  have s: "score ready_world = Inr 1" by (simp add: ready_world_def engine_defs)
  have c: "onMCQComplete resume_env" by (simp add: resume_env_def)
  from C3_confirm_submit_amended [of ready_world resume_env 1] m b s c
  obtain w' where "step resume_env ConfirmSubmit ready_world = Inr w'"
    "storage w' (progressKey resume_env) = None"
    "completions w' = [\<lparr>count = 1, given_answers = mcqState ready_world,
         usedData = localMcqData ready_world, timeTaken = sessionTime ready_world\<rparr>]
        @ completions ready_world"
    by auto
  then have "step resume_env ConfirmSubmit ready_world = Inr w'
          \<and> storage w' (progressKey resume_env) = None
          \<and> completions w' =
               [\<lparr>count = 1, given_answers = answers_of [(0, Some 0), (1, Some 0)],
                 usedData = [item 1, item 0], timeTaken = 0\<rparr>]"
    by (simp add: ready_world_def initial_def)
  with reach m b s c show ?thesis by blast
qed

text \<open>
  The claim as written has the session Submitted after the confirmation. In that same
  session \<^verbatim>\<open>showResults\<close> is still false afterwards: only the effect of line 218 sets it,
  when the host passes \<^verbatim>\<open>userAnswers\<close>.
\<close>

theorem C3_confirm_submit_counterexample:
  "map_sum id (\<lambda>w. (mode w, showResults w))
     (run resume_env [Mount, Select 0 0, Select 1 0, SubmitRequest, ConfirmSubmit]
        (initial Map.empty)) = Inr (Active, False)
   \<and> map_sum id (\<lambda>w. (mode w, showResults w))
       (handleConfirmSubmit resume_env ready_world) = Inr (Active, False)"
  by (simp add: ready_world_def resume_env_def engine_defs)

subsection \<open>The first answer locks the question\<close>




subsection \<open>Starting without questions\<close>

text \<open>
  Claim C5, as the code has it. Without a question set (\<^verbatim>\<open>content.mcqData\<close> absent) the
  branch of line 211 is not entered: the resume and shuffle effect returns at once and no
  sequence of events changes anything but the timer's count of seconds. With no answer given, \<open>canSubmit\<close> holds exactly when the
  session order is empty; mounting a question set that is not empty gives a session of
  as many questions, with nothing attempted and \<open>canSubmit\<close> false.
\<close>

theorem C5_absent_question_set_amended:
  "(mcqData e = None \<longrightarrow>
      \<not> mcqBranch e \<and> resumeShuffleEffect e w = w
      \<and> (\<exists>t. run e evs w = Inr (w\<lparr>sessionTime := t\<rparr>)))
   \<and> (attemptedCount w = 0 \<longrightarrow> (canSubmit w \<longleftrightarrow> localMcqData w = []))
   \<and> (mcqBranch e \<and> userAnswers e = None \<and> mcqData e = Some d \<and> d \<noteq> [] \<longrightarrow>
        (\<exists>w'. step e Mount (initial store) = Inr w'
           \<and> length (localMcqData w') = length d \<and> attemptedCount w' = 0 \<and> \<not> canSubmit w'))"
proof (intro conjI impI)
  assume none: "mcqData e = None"
  then show nb: "\<not> mcqBranch e" by (simp add: mcqBranch_def)
  show "resumeShuffleEffect e w = w" using none by (simp add: resumeShuffleEffect_def)
  show "\<exists>t. run e evs w = Inr (w\<lparr>sessionTime := t\<rparr>)"
    using nb by (rule run_outside_branch)
next
  assume "attemptedCount w = 0"
  then show "canSubmit w \<longleftrightarrow> localMcqData w = []"
    by (cases "localMcqData w") (simp_all add: canSubmit_def minRequired_def)
next
  assume a: "mcqBranch e \<and> userAnswers e = None \<and> mcqData e = Some d \<and> d \<noteq> []"
  obtain shuffled n where sh: "sort_random (random e) 0 d = (shuffled, n)"
    by (cases "sort_random (random e) 0 d")
  then have len: "length shuffled = length d"
    using length_sort_random [of "random e" 0 d] by simp
  with a have ne: "shuffled \<noteq> []" by auto
  have sc: "score (initial store) = Inr 0"
    by (simp add: score_def initial_def Object_keys_empty)
  have "\<exists>w'. dispatch e Mount (initial store) = Inr w'
           \<and> length (localMcqData w') = length d \<and> attemptedCount w' = 0 \<and> \<not> canSubmit w'"
    using a sh len ne
    by (simp add: resumeShuffleEffect_def initial_def afterRender_def score_def autoSave_def
        attemptedCount_def Object_keys_empty canSubmit_def minRequired_def)
  then show "\<exists>w'. step e Mount (initial store) = Inr w'
           \<and> length (localMcqData w') = length d \<and> attemptedCount w' = 0 \<and> \<not> canSubmit w'"
    using a sc by (simp add: step_rendered)
qed

text \<open>The theorem at props without a question set, and at a set of two questions.\<close>

theorem C5_absent_question_set_witness:
  "mcqData absent_env = None
   \<and> (\<exists>t. run absent_env [Mount, Select 0 0, SubmitRequest] (initial Map.empty)
            = Inr ((initial Map.empty)\<lparr>sessionTime := t\<rparr>))
   \<and> attemptedCount (initial Map.empty) = 0 \<and> canSubmit (initial Map.empty)
   \<and> mcqBranch resume_env \<and> mcqData resume_env = Some [item 0, item 1]
   \<and> (\<exists>w'. step resume_env Mount (initial Map.empty) = Inr w'
          \<and> length (localMcqData w') = 2 \<and> attemptedCount w' = 0 \<and> \<not> canSubmit w')"
proof -
  note t = C5_absent_question_set_amended
  have none: "mcqData absent_env = None" by (simp add: absent_env_def)
  have 1: "\<exists>t. run absent_env [Mount, Select 0 0, SubmitRequest] (initial Map.empty)
             = Inr ((initial Map.empty)\<lparr>sessionTime := t\<rparr>)"
    using t [of absent_env "initial Map.empty" "[Mount, Select 0 0, SubmitRequest]"] none
    by blast
  have att: "attemptedCount (initial Map.empty) = 0"
    by (simp add: attemptedCount_def initial_def Object_keys_empty)
  have 2: "canSubmit (initial Map.empty)"
    using t [of absent_env "initial Map.empty" "[]"] att by (simp add: initial_def)
  have b: "mcqBranch resume_env" "userAnswers resume_env = None"
    "mcqData resume_env = Some [item 0, item 1]"
    by (simp_all add: mcqBranch_def resume_env_def)
  have 3: "\<exists>w'. step resume_env Mount (initial Map.empty) = Inr w'
          \<and> length (localMcqData w') = 2 \<and> attemptedCount w' = 0 \<and> \<not> canSubmit w'"
    using t [of resume_env "initial Map.empty" "[]" "[item 0, item 1]" Map.empty] b
    by auto
  show ?thesis using none 1 att 2 b 3 by blast
qed

text \<open>
  The claim as written rejects a set of zero questions. The empty array is truthy, so
  the guard of line 211 lets it pass: the session is mounted in the Active mode over an
  empty order, \<open>minRequired\<close> is \<open>min 50 0 = 0\<close>, \<open>canSubmit\<close> holds with nothing
  attempted, and the submission reports a score of 0 to the host.
\<close>

theorem C5_absent_question_set_counterexample:
  "mcqBranch empty_env
   \<and> map_sum id (\<lambda>w. (mode w, localMcqData w, attemptedCount w, canSubmit w))
       (run empty_env [Mount] (initial Map.empty)) = Inr (Active, [], 0, True)
   \<and> map_sum id (\<lambda>w. map count (completions w))
       (run empty_env [Mount, SubmitRequest, ConfirmSubmit] (initial Map.empty)) = Inr [0]"
  by (simp add: empty_env_def engine_defs)

subsection \<open>Batch navigation\<close>

text \<open>
  Claim C6, as the code has it. While the results are not shown, pressing Next on a
  page with a position that has no entry in \<^verbatim>\<open>mcqState\<close> changes nothing. When there is a
  next page, Next moves to it once every position of the current page has an entry
  (an entry \<^verbatim>\<open>null\<close> counts: the gate of line 498 tests \<^verbatim>\<open>=== undefined\<close>), or once the
  results are shown. Prev moves one page back whenever the batch index is positive,
  whether the results are shown or not.
\<close>

theorem C6_batch_navigation_amended:
  "(\<not> showResults w
      \<and> (\<exists>p. batchIndex w * 50 \<le> p
              \<and> p < min ((batchIndex w + 1) * 50) (length (localMcqData w))
              \<and> DAList.lookup (mcqState w) p = None)
      \<longrightarrow> clickNext w = w \<and> (\<forall>s. score w = Inr s \<longrightarrow> step e Next w = Inr w))
   \<and> (hasMore w
      \<and> (showResults w
          \<or> (\<forall>p. batchIndex w * 50 \<le> p \<and> p < (batchIndex w + 1) * 50
                 \<longrightarrow> DAList.lookup (mcqState w) p \<noteq> None))
      \<longrightarrow> clickNext w = w\<lparr>batchIndex := batchIndex w + 1\<rparr>
          \<and> (\<forall>s. mcqBranch e \<and> score w = Inr s \<longrightarrow>
                (\<exists>w'. step e Next w = Inr w' \<and> batchIndex w' = batchIndex w + 1)))
   \<and> (0 < batchIndex w
      \<longrightarrow> clickPrev w = w\<lparr>batchIndex := batchIndex w - 1\<rparr>
          \<and> (\<forall>s. mcqBranch e \<and> score w = Inr s \<longrightarrow>
                (\<exists>w'. step e Prev w = Inr w' \<and> batchIndex w' = batchIndex w - 1)))"
proof (intro conjI impI allI)
  assume a: "\<not> showResults w
      \<and> (\<exists>p. batchIndex w * 50 \<le> p
              \<and> p < min ((batchIndex w + 1) * 50) (length (localMcqData w))
              \<and> DAList.lookup (mcqState w) p = None)"
  then have dis: "nextDisabled w"
    by (simp add: nextDisabled_def pageHasUndefined_iff)
  then show "clickNext w = w" by (simp add: clickNext_def)
  show "step e Next w = Inr w" if "score w = Inr s" for s
    using dis that by (simp add: step_def)
next
  assume a: "hasMore w
      \<and> (showResults w
          \<or> (\<forall>p. batchIndex w * 50 \<le> p \<and> p < (batchIndex w + 1) * 50
                 \<longrightarrow> DAList.lookup (mcqState w) p \<noteq> None))"
  then have en: "\<not> nextDisabled w"
    by (auto simp add: nextDisabled_def pageHasUndefined_iff)
  with a show "clickNext w = w\<lparr>batchIndex := batchIndex w + 1\<rparr>"
    by (simp add: clickNext_def)
  show "\<exists>w'. step e Next w = Inr w' \<and> batchIndex w' = batchIndex w + 1"
    if "mcqBranch e \<and> score w = Inr s" for s
    using that a step_Next_taken [of e w s] by (simp add: autoSave_fields)
next
  assume a: "0 < batchIndex w"
  then show "clickPrev w = w\<lparr>batchIndex := batchIndex w - 1\<rparr>"
    by (simp add: clickPrev_def)
  show "\<exists>w'. step e Prev w = Inr w' \<and> batchIndex w' = batchIndex w - 1"
    if "mcqBranch e \<and> score w = Inr s" for s
    using that a step_Prev_taken [of e w s] by (simp add: autoSave_fields)
qed

text \<open>
  The theorem at 120 questions: with 49 answers Next is refused, with 50 it leads to
  page 1, and so it does with no answer once the results are shown; Prev leads from
  page 1 to page 0 before submission and from page 2 to page 1 after it.
\<close>

theorem C6_batch_navigation_witness:
  "(\<not> showResults (answered_upto 49 120)
      \<and> DAList.lookup (mcqState (answered_upto 49 120)) 49 = None
      \<and> clickNext (answered_upto 49 120) = answered_upto 49 120)
   \<and> (hasMore (answered_upto 50 120)
      \<and> batchIndex (clickNext (answered_upto 50 120)) = 1)
   \<and> (hasMore ((answered_upto 0 120)\<lparr>showResults := True\<rparr>)
      \<and> batchIndex (clickNext ((answered_upto 0 120)\<lparr>showResults := True\<rparr>)) = 1)
   \<and> batchIndex (clickPrev ((answered_upto 50 120)\<lparr>batchIndex := 1\<rparr>)) = 0
   \<and> batchIndex (clickPrev ((answered_upto 0 120)\<lparr>showResults := True, batchIndex := 2\<rparr>)) = 1"
proof -
  note t = C6_batch_navigation_amended
  have n49: "DAList.lookup (mcqState (answered_upto 49 120)) 49 = None"
    by (simp add: lookup_answered_upto)
  have 1: "clickNext (answered_upto 49 120) = answered_upto 49 120"
  proof -
    have "\<exists>p. batchIndex (answered_upto 49 120) * 50 \<le> p
            \<and> p < min ((batchIndex (answered_upto 49 120) + 1) * 50)
                     (length (localMcqData (answered_upto 49 120)))
            \<and> DAList.lookup (mcqState (answered_upto 49 120)) p = None"
      using n49 by (intro exI [of _ 49]) (simp add: answered_upto_flags answered_upto_simps)
    then show ?thesis
      using t [of "answered_upto 49 120"] by (simp add: answered_upto_flags)
  qed
  have hm: "hasMore (answered_upto 50 120)"
    by (simp add: hasMore_def BATCH_SIZE_def answered_upto_flags answered_upto_simps)
  have 2: "batchIndex (clickNext (answered_upto 50 120)) = 1"
  proof -
    have "\<forall>p. batchIndex (answered_upto 50 120) * 50 \<le> p
             \<and> p < (batchIndex (answered_upto 50 120) + 1) * 50
               \<longrightarrow> DAList.lookup (mcqState (answered_upto 50 120)) p \<noteq> None"
      by (simp add: lookup_answered_upto answered_upto_flags)
    then have "clickNext (answered_upto 50 120)
                 = (answered_upto 50 120)\<lparr>batchIndex := batchIndex (answered_upto 50 120) + 1\<rparr>"
      using t [of "answered_upto 50 120"] hm by blast
    then show ?thesis by (simp add: answered_upto_flags)
  qed
  let ?sub = "(answered_upto 0 120)\<lparr>showResults := True\<rparr>"
  have hs: "hasMore ?sub"
    by (simp add: hasMore_def BATCH_SIZE_def answered_upto_flags answered_upto_simps)
  have "clickNext ?sub = ?sub\<lparr>batchIndex := batchIndex ?sub + 1\<rparr>"
    using t [of ?sub] hs by simp
  then have 3: "batchIndex (clickNext ?sub) = 1"
    by (simp add: answered_upto_flags)
  have 4: "batchIndex (clickPrev ((answered_upto 50 120)\<lparr>batchIndex := 1\<rparr>)) = 0"
    using t [of "(answered_upto 50 120)\<lparr>batchIndex := 1\<rparr>"] by simp
  have 5: "batchIndex (clickPrev ((answered_upto 0 120)\<lparr>showResults := True, batchIndex := 2\<rparr>)) = 1"
    using t [of "(answered_upto 0 120)\<lparr>showResults := True, batchIndex := 2\<rparr>"] by simp
  show ?thesis
    using n49 1 hm 2 hs 3 4 5 by (simp add: answered_upto_flags)
qed

text \<open>
  The claim as written refuses Next on a page with any unanswered position and opens
  it once the session is submitted. Neither holds. A stored record whose first page
  holds \<^verbatim>\<open>null\<close> at every position is resumed into the Active mode with no position
  answered (line 392 takes \<^verbatim>\<open>null\<close> for unanswered), and Next leads to page 1. And after a
  confirmed submission on page 1 of 120 questions with positions 50 to 99 unanswered,
  \<^verbatim>\<open>showResults\<close> is still false and Next is still refused.
\<close>

theorem C6_batch_navigation_counterexample:
  "map_sum id (\<lambda>w. (mode w, isAnswered w 0, batchIndex w))
     (run resume_env [Mount, Resume] (initial null_store)) = Inr (Active, False, 0)
   \<and> map_sum id (\<lambda>w. (mode w, isAnswered w 0, batchIndex w))
     (run resume_env [Mount, Resume, Next] (initial null_store)) = Inr (Active, False, 1)
   \<and> map_sum id (\<lambda>w. (length (completions w), showResults w, batchIndex w))
     (run resume_env [ConfirmSubmit] (submitted_page 1)) = Inr (1, False, 1)
   \<and> map_sum id (\<lambda>w. (length (completions w), showResults w, batchIndex w))
     (run resume_env [ConfirmSubmit, Next] (submitted_page 1)) = Inr (1, False, 1)"
proof -
  have b: "mcqBranch resume_env" by (simp add: mcqBranch_def resume_env_def)
  \<comment> \<open>the page of null entries\<close>
  have m: "step resume_env Mount (initial null_store) = Inr (pending_world null_store)"
    by (simp add: pending_world_def null_store_def resume_env_def engine_defs)
  define w1 where "w1 = (pending_world null_store)\<lparr>mcqState := null_answers, batchIndex := 0,
      localMcqData := replicate 51 (item 0), showResumePrompt := False\<rparr>"
  have hr: "handleResume resume_env (pending_world null_store) = Inr w1"
    by (simp add: handleResume_def pending_world_def null_store_def initial_def
        null_page_record_def w1_def)
  have s0: "score (pending_world null_store) = Inr 0"
    by (rule score_no_answers) (simp add: pending_world_def initial_def)
  obtain s1 where s1: "score w1 = Inr s1"
    using score_Inr_iff [of w1] by (auto simp: w1_def null_answers_simps)
  have r: "step resume_env Resume (pending_world null_store) = Inr (autoSave resume_env w1)"
    using b s0 hr s1
    by (simp add: step_def afterRender_def)
      (simp add: pending_world_def null_store_def initial_def)
  let ?w2 = "autoSave resume_env w1"
  have f1: "mcqState w1 = null_answers" "batchIndex w1 = 0" "\<not> showResults w1"
    "\<not> showResumePrompt w1" "length (localMcqData w1) = 51"
    by (simp_all add: w1_def pending_world_def initial_def)
  then have f2: "mcqState ?w2 = null_answers" "batchIndex ?w2 = 0" "\<not> showResults ?w2"
    "\<not> showResumePrompt ?w2" "length (localMcqData ?w2) = 51"
    by (simp_all add: autoSave_fields)
  have s2: "score ?w2 = Inr s1"
    using s1 score_cong [of ?w2 w1] by (simp add: autoSave_fields)
  have n: "step resume_env Next ?w2 = Inr (autoSave resume_env (?w2\<lparr>batchIndex := 1\<rparr>))"
    using step_Next_taken [OF b s2] by (simp add: hasMore_def BATCH_SIZE_def f2 null_answers_simps)
  have run2: "run resume_env [Mount, Resume] (initial null_store) = Inr ?w2"
    by (simp add: m r)
  have run3: "run resume_env [Mount, Resume, Next] (initial null_store)
                = Inr (autoSave resume_env (?w2\<lparr>batchIndex := 1\<rparr>))"
    by (simp add: m r n)
  have A1: "map_sum id (\<lambda>w. (mode w, isAnswered w 0, batchIndex w))
     (run resume_env [Mount, Resume] (initial null_store)) = Inr (Active, False, 0)"
    unfolding run2 by (simp add: mode_def isAnswered_def autoSave_fields f1 null_answers_simps)
  have A2: "map_sum id (\<lambda>w. (mode w, isAnswered w 0, batchIndex w))
     (run resume_env [Mount, Resume, Next] (initial null_store)) = Inr (Active, False, 1)"
    unfolding run3 by (simp add: mode_def isAnswered_def autoSave_fields f1 null_answers_simps)
  \<comment> \<open>after the submission\<close>
  obtain s where s: "score (submitted_page 1) = Inr s"
    using score_answered_upto [of 50 120] score_cong [of "submitted_page 1" "answered_upto 50 120"]
    by (auto simp: submitted_page_def)
  define w3 where "w3 = (submitted_page 1)\<lparr>showSubmitModal := False,
      storage := (storage (submitted_page 1))(progressKey resume_env := None),
      completions := [\<lparr>count = s, given_answers = mcqState (submitted_page 1),
         usedData = localMcqData (submitted_page 1), timeTaken = sessionTime (submitted_page 1)\<rparr>]\<rparr>"
  have c: "step resume_env ConfirmSubmit (submitted_page 1) = Inr w3"
    using step_ConfirmSubmit [OF b s]
    by (simp add: w3_def submitted_page_def resume_env_def answered_upto_def initial_def)
  have s3: "score w3 = Inr s"
    using s score_cong [of w3 "submitted_page 1"] by (simp add: w3_def)
  have f3: "\<not> showResults w3" "batchIndex w3 = 1" "length (localMcqData w3) = 120"
    "DAList.lookup (mcqState w3) 50 = None" "length (completions w3) = 1"
    by (simp_all add: w3_def submitted_page_def answered_upto_flags answered_upto_simps
        lookup_answered_upto)
  have rej: "step resume_env Next w3 = Inr w3"
    using step_Next_rejected [OF s3 f3(1), of 50] by (simp add: f3)
  have run4: "run resume_env [ConfirmSubmit] (submitted_page 1) = Inr w3"
    using c by simp
  have run5: "run resume_env [ConfirmSubmit, Next] (submitted_page 1) = Inr w3"
    using c rej by simp
  have B1: "map_sum id (\<lambda>w. (length (completions w), showResults w, batchIndex w))
     (run resume_env [ConfirmSubmit] (submitted_page 1)) = Inr (1, False, 1)"
    unfolding run4 by (simp add: f3)
  have B2: "map_sum id (\<lambda>w. (length (completions w), showResults w, batchIndex w))
     (run resume_env [ConfirmSubmit, Next] (submitted_page 1)) = Inr (1, False, 1)"
    unfolding run5 by (simp add: f3)
  show ?thesis using A1 A2 B1 B2 by blast
qed

subsection \<open>Re-creating the quiz\<close>

text \<open>
  Claim C7, as the code has it. Confirming the re-creation dialog gives a state with no
  attempted answer, batch index 0, the results not shown, no stored record under the key
  the dialog was opened with (the auto-save effect that follows writes nothing), and an
  order that is a permutation of the question set the dialog was opened with. Pressing
  Re-create and confirming does so for the current question set and chapter, from every
  session whose results are not shown. While the results are shown the Re-create button
  is not rendered, and pressing it does nothing.
\<close>

theorem C7_recreate_amended:
  "(confirmOpen w \<and> mcqBranch e \<and> score w = Inr s \<longrightarrow>
      (\<exists>w'. step e ConfirmDialog w = Inr w'
         \<and> attemptedCount w' = 0 \<and> batchIndex w' = 0
         \<and> storage w' (confirm_key w) = None
         \<and> mset (localMcqData w') = mset (confirm_mcqData w)
         \<and> \<not> showResults w' \<and> \<not> confirmOpen w'))
   \<and> (\<not> showResults w \<and> mcqBranch e \<and> mcqData e = Some d \<and> score w = Inr s \<longrightarrow>
      (\<exists>w'. run e [Recreate, ConfirmDialog] w = Inr w'
         \<and> attemptedCount w' = 0 \<and> batchIndex w' = 0
         \<and> storage w' (progressKey e) = None
         \<and> mset (localMcqData w') = mset d
         \<and> \<not> showResults w' \<and> \<not> confirmOpen w'))
   \<and> (showResults w \<and> score w = Inr s \<longrightarrow> step e Recreate w = Inr w)"
proof -
  have core: "\<exists>w'. step e ConfirmDialog w = Inr w'
         \<and> attemptedCount w' = 0 \<and> batchIndex w' = 0
         \<and> storage w' (confirm_key w) = None
         \<and> mset (localMcqData w') = mset (confirm_mcqData w)
         \<and> \<not> showResults w' \<and> \<not> confirmOpen w'"
    if "confirmOpen w" "mcqBranch e" "score w = Inr s" for w :: world
  proof -
    define w1 where "w1 = recreate_onConfirm e w"
    have f: "batchIndex w1 = 0" "\<not> showResults w1"
      "\<not> confirmOpen w1" "storage w1 (confirm_key w) = None"
      "localMcqData w1 = fst (sort_random (random e) (draws w) (confirm_mcqData w))"
      by (simp_all add: w1_def recreate_onConfirm_def case_prod_beta)
    have att: "attemptedCount w1 = 0"
      by (simp add: w1_def fresh_attempted)
    have "afterRender e w1 = Inr (autoSave e w1)"
      unfolding w1_def by (rule afterRender_Inr) (rule score_recreate_onConfirm)
    then have "step e ConfirmDialog w = Inr (autoSave e w1)"
      using that by (simp add: step_def w1_def)
    moreover have "storage (autoSave e w1) (confirm_key w) = None"
      by (simp add: autoSave_storage att f)
    moreover have "mset (localMcqData (autoSave e w1)) = mset (confirm_mcqData w)"
      by (simp add: autoSave_fields f mset_sort_random)
    ultimately show ?thesis
      using f att by (simp add: autoSave_fields autoSave_derived)
  qed
  have two: "\<exists>w'. run e [Recreate, ConfirmDialog] w = Inr w'
         \<and> attemptedCount w' = 0 \<and> batchIndex w' = 0
         \<and> storage w' (progressKey e) = None
         \<and> mset (localMcqData w') = mset d
         \<and> \<not> showResults w' \<and> \<not> confirmOpen w'"
    if a: "\<not> showResults w" "mcqBranch e" "mcqData e = Some d" "score w = Inr s"
  proof -
    have r: "step e Recreate w = Inr (handleRecreate e w)"
      using a by (simp add: step_def)
    have h: "confirmOpen (handleRecreate e w)" "score (handleRecreate e w) = Inr s"
      "confirm_key (handleRecreate e w) = progressKey e"
      "confirm_mcqData (handleRecreate e w) = d"
      using a(3,4) by (simp_all add: score_handleRecreate)
        (simp_all add: handleRecreate_def mcqData_or_empty_def)
    from core [OF h(1) a(2) h(2)] r h(3,4) show ?thesis by auto
  qed
  have three: "step e Recreate w = Inr w" if "showResults w" "score w = Inr s"
    using that by (simp add: step_def)
  show ?thesis using core two three by blast
qed

text \<open>
  The theorem at a session of two answered questions with a stored record: with the
  dialog open on batch 3, from the unsubmitted session through the Re-create button,
  and with the results shown, where Re-create changes nothing.
\<close>

theorem C7_recreate_witness:
  "(confirmOpen recreate_world \<and> mcqBranch resume_env \<and> score recreate_world = Inr 1
      \<and> confirm_key recreate_world = progressKey resume_env
      \<and> attemptedCount recreate_world = 2 \<and> batchIndex recreate_world = 3
      \<and> storage recreate_world (progressKey resume_env) \<noteq> None)
   \<and> (\<exists>w'. step resume_env ConfirmDialog recreate_world = Inr w'
          \<and> attemptedCount w' = 0 \<and> batchIndex w' = 0
          \<and> storage w' (progressKey resume_env) = None
          \<and> mset (localMcqData w') = mset [item 0, item 1]
          \<and> \<not> showResults w')
   \<and> (\<not> showResults (ready_world\<lparr>showSubmitModal := False\<rparr>)
      \<and> mcqData resume_env = Some [item 0, item 1]
      \<and> score (ready_world\<lparr>showSubmitModal := False\<rparr>) = Inr 1
      \<and> attemptedCount (ready_world\<lparr>showSubmitModal := False\<rparr>) = 2)
   \<and> (\<exists>w'. run resume_env [Recreate, ConfirmDialog] (ready_world\<lparr>showSubmitModal := False\<rparr>)
             = Inr w'
          \<and> attemptedCount w' = 0 \<and> batchIndex w' = 0
          \<and> storage w' (progressKey resume_env) = None
          \<and> mset (localMcqData w') = mset [item 0, item 1])
   \<and> (showResults recreate_world
      \<and> step resume_env Recreate recreate_world = Inr recreate_world)"
proof -
  note t = C7_recreate_amended
  have pre: "showResults recreate_world" "confirmOpen recreate_world" "mcqBranch resume_env"
    "mcqData resume_env = Some [item 0, item 1]" "score recreate_world = Inr 1"
    "attemptedCount recreate_world = 2" "batchIndex recreate_world = 3"
    "storage recreate_world (progressKey resume_env) \<noteq> None"
    "confirm_key recreate_world = progressKey resume_env"
    "confirm_mcqData recreate_world = [item 0, item 1]"
    by (simp_all add: recreate_world_def ready_world_def resume_env_def engine_defs)
  have pre': "\<not> showResults (ready_world\<lparr>showSubmitModal := False\<rparr>)"
    "score (ready_world\<lparr>showSubmitModal := False\<rparr>) = Inr 1"
    "attemptedCount (ready_world\<lparr>showSubmitModal := False\<rparr>) = 2"
    by (simp_all add: ready_world_def engine_defs)
  have 1: "\<exists>w'. step resume_env ConfirmDialog recreate_world = Inr w'
          \<and> attemptedCount w' = 0 \<and> batchIndex w' = 0
          \<and> storage w' (progressKey resume_env) = None
          \<and> mset (localMcqData w') = mset [item 0, item 1]
          \<and> \<not> showResults w'"
    using t [of recreate_world resume_env 1] pre by auto
  have 2: "\<exists>w'. run resume_env [Recreate, ConfirmDialog] (ready_world\<lparr>showSubmitModal := False\<rparr>)
             = Inr w'
          \<and> attemptedCount w' = 0 \<and> batchIndex w' = 0
          \<and> storage w' (progressKey resume_env) = None
          \<and> mset (localMcqData w') = mset [item 0, item 1]"
    using t [of "ready_world\<lparr>showSubmitModal := False\<rparr>" resume_env 1 "[item 0, item 1]"]
      pre(3,4) pre'
    by blast
  have 3: "step resume_env Recreate recreate_world = Inr recreate_world"
    using t [of recreate_world resume_env 1] pre(1,5) by blast
  show ?thesis using pre pre' 1 2 3 by blast
qed

text \<open>
  The claim as written re-creates from Submitted as well. The results are shown only
  when the host passes \<^verbatim>\<open>userAnswers\<close>; in such a session of one answer, pressing
  Re-create and confirming leaves the answer, the order and the mode as they were.
\<close>

theorem C7_recreate_counterexample:
  "map_sum id (\<lambda>w. (mode w, attemptedCount w, batchIndex w, localMcqData w))
     (run history_env [Mount] (initial Map.empty))
       = Inr (Analysis, 1, 0, [item 0, item 1])
   \<and> map_sum id (\<lambda>w. (mode w, attemptedCount w, batchIndex w, localMcqData w))
     (run history_env [Mount, Recreate, ConfirmDialog] (initial Map.empty))
       = Inr (Analysis, 1, 0, [item 0, item 1])"
  by (simp add: history_env_def resume_env_def engine_defs)

subsection \<open>Pagination\<close>

text \<open>
  Claim C8. With the page size 50, an order of 10 questions has one page and \<open>hasMore\<close>
  is false at every batch index; an order of 120 questions has exactly three pages
  (\<open>hasMore\<close> holds at the indices 0 and 1 only, and the page is empty from index 3 on),
  page 0 holds 50 items and page 2 holds 20. In general page \<open>k\<close> is the contiguous
  slice of the order from \<open>k * 50\<close> up to \<open>(k + 1) * 50\<close>, cut at the end of the order,
  and \<open>hasMore\<close> holds exactly when \<open>(batchIndex + 1) * 50 < |order|\<close>.
\<close>

theorem C8_batch_paginator:
  "(length (localMcqData w) = 10 \<longrightarrow>
      \<not> hasMore w \<and> (batchIndex w = 0 \<longrightarrow> currentBatchData w = localMcqData w)
      \<and> (batchIndex w > 0 \<longrightarrow> currentBatchData w = []))
   \<and> (length (localMcqData w) = 120 \<longrightarrow>
      (hasMore w \<longleftrightarrow> batchIndex w < 2) \<and> (currentBatchData w \<noteq> [] \<longleftrightarrow> batchIndex w < 3)
      \<and> (batchIndex w = 0 \<longrightarrow> length (currentBatchData w) = 50)
      \<and> (batchIndex w = 2 \<longrightarrow> length (currentBatchData w) = 20))
   \<and> length (currentBatchData w) = min 50 (length (localMcqData w) - batchIndex w * 50)
   \<and> (\<forall>i < length (currentBatchData w).
        currentBatchData w ! i = localMcqData w ! (batchIndex w * 50 + i))
   \<and> (hasMore w \<longleftrightarrow> (batchIndex w + 1) * 50 < length (localMcqData w))"
proof (intro conjI impI allI)
  assume ten: "length (localMcqData w) = 10"
  show "\<not> hasMore w" using ten by (simp add: hasMore_def BATCH_SIZE_def)
  show "currentBatchData w = localMcqData w" if "batchIndex w = 0"
    using ten that by (simp add: currentBatchData_def js_slice_def BATCH_SIZE_def)
  show "currentBatchData w = []" if "0 < batchIndex w"
    using ten that by (simp add: currentBatchData_def js_slice_def BATCH_SIZE_def)
next
  assume big: "length (localMcqData w) = 120"
  show "hasMore w \<longleftrightarrow> batchIndex w < 2"
    using big by (auto simp add: hasMore_def BATCH_SIZE_def)
  have "currentBatchData w \<noteq> [] \<longleftrightarrow> 0 < length (currentBatchData w)" by simp
  also have "\<dots> \<longleftrightarrow> batchIndex w < 3"
    unfolding length_currentBatchData using big by auto
  finally show "currentBatchData w \<noteq> [] \<longleftrightarrow> batchIndex w < 3" .
  show "length (currentBatchData w) = 50" if "batchIndex w = 0"
    using big that by (simp add: length_currentBatchData)
  show "length (currentBatchData w) = 20" if "batchIndex w = 2"
    using big that by (simp add: length_currentBatchData)
next
  show "length (currentBatchData w) = min 50 (length (localMcqData w) - batchIndex w * 50)"
    by (rule length_currentBatchData)
  show "currentBatchData w ! i = localMcqData w ! (batchIndex w * 50 + i)"
    if "i < length (currentBatchData w)" for i
    using that by (rule nth_currentBatchData)
  show "hasMore w \<longleftrightarrow> (batchIndex w + 1) * 50 < length (localMcqData w)"
    by (simp add: hasMore_def BATCH_SIZE_def)
qed

text \<open>The theorem at orders of 10 and of 120 different questions.\<close>

theorem C8_batch_paginator_witness:
  "(length (localMcqData (page_world 0 10)) = 10 \<and> \<not> hasMore (page_world 0 10)
      \<and> length (currentBatchData (page_world 0 10)) = 10
      \<and> \<not> hasMore (page_world 7 10) \<and> currentBatchData (page_world 7 10) = [])
   \<and> (length (localMcqData (page_world 2 120)) = 120
      \<and> length (currentBatchData (page_world 0 120)) = 50 \<and> hasMore (page_world 0 120)
      \<and> hasMore (page_world 1 120)
      \<and> length (currentBatchData (page_world 2 120)) = 20 \<and> \<not> hasMore (page_world 2 120)
      \<and> currentBatchData (page_world 3 120) = []
      \<and> (19 < length (currentBatchData (page_world 2 120))
         \<and> currentBatchData (page_world 2 120) ! 19 = item 119))"
proof -
  note t = C8_batch_paginator
  have a: "\<not> hasMore (page_world 0 10)" "length (currentBatchData (page_world 0 10)) = 10"
    using t [of "page_world 0 10"] by (simp_all add: page_world_simps)
  have b: "\<not> hasMore (page_world 7 10)" "currentBatchData (page_world 7 10) = []"
    using t [of "page_world 7 10"] by (simp_all add: page_world_simps)
  have c: "length (currentBatchData (page_world 0 120)) = 50" "hasMore (page_world 0 120)"
    using t [of "page_world 0 120"] by (simp_all add: page_world_simps)
  have d: "hasMore (page_world 1 120)"
    using t [of "page_world 1 120"] by (simp_all add: page_world_simps)
  have e: "length (currentBatchData (page_world 2 120)) = 20" "\<not> hasMore (page_world 2 120)"
    using t [of "page_world 2 120"] by (simp_all add: page_world_simps)
  have f: "currentBatchData (page_world 3 120) = []"
    using t [of "page_world 3 120"] by (simp_all add: page_world_simps)
  have "\<forall>i < length (currentBatchData (page_world 2 120)).
          currentBatchData (page_world 2 120) ! i
            = localMcqData (page_world 2 120) ! (batchIndex (page_world 2 120) * 50 + i)"
    using t [of "page_world 2 120"] by blast
  then have g: "currentBatchData (page_world 2 120) ! 19 = item 119"
    using e(1) by (simp add: page_world_simps)
  show ?thesis
    using a b c d e f g by (simp add: page_world_simps)
qed

subsection \<open>No record is written while the results are shown\<close>




subsection \<open>The unchecked index of the score\<close>

text \<open>
  Claim C10. The score computation reads \<^verbatim>\<open>localMcqData[qIdx].correctAnswer\<close> at every
  key of \<^verbatim>\<open>mcqState\<close> with no bounds check: it returns a number exactly when every key
  is an index of the order, and throws a TypeError exactly when some key is at or beyond
  the length of the order. Resuming a stored record whose answers hold such a key gives
  a state of that kind, and then every later render throws.
\<close>

theorem C10_score_unchecked_index:
  "((\<exists>n. score w = Inr n) \<longleftrightarrow>
      (\<forall>k \<in> set (Object_keys (mcqState w)). k < length (localMcqData w)))
   \<and> (score w = Inl TypeError \<longleftrightarrow>
      (\<exists>k \<in> set (Object_keys (mcqState w)). length (localMcqData w) \<le> k))
   \<and> (storage w (progressKey e) = Some (Parses parsed) \<and> saved_mcqState parsed = Some st
      \<and> j \<in> set (Object_keys st)
      \<and> length (case saved_localMcqData parsed of None \<Rightarrow> localMcqData w | Some d \<Rightarrow> d) \<le> j
      \<longrightarrow> (\<exists>w'. handleResume e w = Inr w' \<and> score w' = Inl TypeError
                \<and> (mcqBranch e \<longrightarrow> (\<forall>ev. step e ev w' = Inl TypeError))))"
proof (intro conjI impI)
  assume a: "storage w (progressKey e) = Some (Parses parsed) \<and> saved_mcqState parsed = Some st
      \<and> j \<in> set (Object_keys st)
      \<and> length (case saved_localMcqData parsed of None \<Rightarrow> localMcqData w | Some d \<Rightarrow> d) \<le> j"
  define w' where "w' = w\<lparr>mcqState := st, batchIndex := (case saved_batchIndex parsed of None \<Rightarrow> 0 | Some b \<Rightarrow> b),
        localMcqData := (case saved_localMcqData parsed of None \<Rightarrow> localMcqData w | Some d \<Rightarrow> d),
        showResumePrompt := False\<rparr>"
  have r: "handleResume e w = Inr w'"
    using a by (simp add: handleResume_def w'_def)
  have "\<exists>k \<in> set (Object_keys (mcqState w')). length (localMcqData w') \<le> k"
    using a by (auto simp: w'_def)
  then have s: "score w' = Inl TypeError"
    by (rule score_invalid)
  then have "\<forall>ev. step e ev w' = Inl TypeError" if "mcqBranch e"
    using that by (simp add: step_def)
  with r s show "\<exists>w'. handleResume e w = Inr w' \<and> score w' = Inl TypeError
                \<and> (mcqBranch e \<longrightarrow> (\<forall>ev. step e ev w' = Inl TypeError))"
    by blast
qed (rule score_Inr_iff, rule score_Inl_iff)

text \<open>
  The theorem at a stored record \<^verbatim>\<open>{mcqState: {3: 1}, batchIndex: 0}\<close> resumed over an
  order of two questions.
\<close>

theorem C10_score_unchecked_index_witness:
  "storage stale_world (progressKey resume_env) = Some (Parses stale_record)
   \<and> saved_mcqState stale_record = Some (answers_of [(3, Some 1)])
   \<and> 3 \<in> set (Object_keys (answers_of [(3, Some 1)]))
   \<and> length (localMcqData stale_world) \<le> 3
   \<and> mcqBranch resume_env
   \<and> (\<exists>w'. handleResume resume_env stale_world = Inr w' \<and> score w' = Inl TypeError
           \<and> step resume_env (Select 0 0) w' = Inl TypeError)"
proof -
  have 1: "storage stale_world (progressKey resume_env) = Some (Parses stale_record)"
    by (simp add: stale_world_def initial_def)
  have 2: "saved_mcqState stale_record = Some (answers_of [(3, Some 1)])"
    by (simp add: stale_record_def)
  have 3: "3 \<in> set (Object_keys (answers_of [(3, Some 1)]))"
    by (simp add: answers_of_def Object_keys_update Object_keys_empty)
  have 4: "length (case saved_localMcqData stale_record of
                     None \<Rightarrow> localMcqData stale_world | Some d \<Rightarrow> d) \<le> 3"
    by (simp add: stale_record_def stale_world_def initial_def)
  have 5: "mcqBranch resume_env"
    by (simp add: mcqBranch_def resume_env_def)
  from C10_score_unchecked_index [of stale_world resume_env stale_record "answers_of [(3, Some 1)]" 3] 1 2 3 4 5
  have "\<exists>w'. handleResume resume_env stale_world = Inr w' \<and> score w' = Inl TypeError
           \<and> (\<forall>ev. step resume_env ev w' = Inl TypeError)"
    by blast
  then have "\<exists>w'. handleResume resume_env stale_world = Inr w' \<and> score w' = Inl TypeError
           \<and> step resume_env (Select 0 0) w' = Inl TypeError"
    by blast
  moreover have "length (localMcqData stale_world) \<le> 3"
    by (simp add: stale_world_def initial_def)
  ultimately show ?thesis using 1 2 3 5 by blast
qed

end
